theory Spec2Isabelle
  imports Main "HOL-Library.Word" "HOL-Library.Signed_Division"
begin

section \<open>Machine integers of module_aat.cpp\<close>

text \<open>
  The tracker runs on 32-bit targets: \<open>int\<close>, \<open>long\<close> and \<open>int32_t\<close> are 32 bits wide.
  Every integer is a word; an unsigned value is read with \<open>uint\<close>, a signed one with
  \<open>sint\<close>. Addition, subtraction and multiplication are the same on both readings
  (two's complement; a signed result that does not fit wraps, as it does on the targets);
  division, remainder and comparison are not, so the signed ones are written out below.
  A division whose divisor is zero does not return: it is the value \<open>None\<close>.
\<close>

type_synonym u8 = "8 word"
type_synonym u16 = "16 word"
type_synonym u32 = "32 word"
type_synonym i32 = "32 word"

text \<open>\<open>a / b\<close> on \<open>int32_t\<close>: truncation towards zero.\<close>

definition i32_div :: "i32 \<Rightarrow> i32 \<Rightarrow> i32 option" where
  "i32_div a b = (if b = 0 then None else Some (word_of_int (sint a sdiv sint b)))"

text \<open>\<open>a / b\<close> on \<open>uint32_t\<close>.\<close>

definition u32_div :: "u32 \<Rightarrow> u32 \<Rightarrow> u32 option" where
  "u32_div a b = (if b = 0 then None else Some (a div b))"

text \<open>\<open>a % 360\<close> on \<open>int32_t\<close>: the remainder has the sign of the dividend.\<close>

definition i32_mod360 :: "i32 \<Rightarrow> i32" where
  "i32_mod360 a = word_of_int (sint a smod 360)"

text \<open>Arduino's macro \<open>abs(x) ((x)>0?(x):-(x))\<close> on \<open>int32_t\<close>.\<close>

definition i32_abs :: "i32 \<Rightarrow> i32" where
  "i32_abs x = (if 0 < sint x then x else - x)"

text \<open>
  Arduino's macro \<open>constrain(amt,low,high) ((amt)<(low)?(low):((amt)>(high)?(high):(amt)))\<close>,
  on unsigned operands and on signed ones.
\<close>

definition constrain_u32 :: "u32 \<Rightarrow> u32 \<Rightarrow> u32 \<Rightarrow> u32" where
  "constrain_u32 amt low high = (if amt < low then low else if amt > high then high else amt)"

definition constrain_i32 :: "i32 \<Rightarrow> i32 \<Rightarrow> i32 \<Rightarrow> i32" where
  "constrain_i32 amt low high =
     (if sint amt < sint low then low else if sint amt > sint high then high else amt)"

text \<open>
  Arduino's \<open>long map(long x, long in_min, long in_max, long out_min, long out_max)\<close>,
  a function of the Arduino core and not of this repository, as its reference gives it:
  \<open>(x - in_min) * (out_max - out_min) / (in_max - in_min) + out_min\<close>.
\<close>

definition map_long :: "i32 \<Rightarrow> i32 \<Rightarrow> i32 \<Rightarrow> i32 \<Rightarrow> i32 \<Rightarrow> i32 option" where
  "map_long x in_min in_max out_min out_max =
     map_option (\<lambda>q. q + out_min) (i32_div ((x - in_min) * (out_max - out_min)) (in_max - in_min))"

section \<open>Data\<close>

text \<open>
  The fields of \<open>AatModule\<close> are declared in module_aat.h, which is not among the
  sources; the constructor's initialiser list names them. module_aat.cpp fixes most of
  their widths by use: \<open>_gpsAvgUpdateInterval\<close>, \<open>_lastServoUpdateMs\<close>,
  \<open>_targetDistance\<close> and \<open>lastUpdateMs\<close> are combined with \<open>uint32_t\<close> operands,
  \<open>_azimMsPerDegree\<close> and \<open>_servoPos\<close> hold \<open>int32_t\<close> values, \<open>_targetElev\<close> receives a
  \<open>uint8_t\<close>, \<open>satcnt\<close> a byte. The width of \<open>_targetAzim\<close>, a number of degrees below
  360, is not fixed by its uses; it is taken as \<open>uint16_t\<close>, so that it is promoted to
  \<open>int\<close> where it meets \<open>int32_t\<close> operands.
\<close>

record gps =
  lat :: i32
  lon :: i32
  speed :: u16
  heading :: u16
  altitude :: i32
  lastUpdateMs :: u32
  satcnt :: u8
  updated :: bool

record homepos =
  home_lat :: i32
  home_lon :: i32
  home_alt :: i32

datatype axis = IDX_AZIM | IDX_ELEV

record aat =
  gpsLast :: gps
  home :: homepos
  gpsAvgUpdateInterval :: u32
  lastServoUpdateMs :: u32
  targetDistance :: u32
  targetAzim :: u16
  targetElev :: u8
  azimMsPerDegree :: i32
  servoPos :: "axis \<Rightarrow> i32"

text \<open>
  The configuration object \<open>config\<close> (config.h is not among the sources) is read through
  five getters; a record holds what they return.
\<close>

record config =
  GetAatSatelliteHomeMin :: u8
  GetAatProject :: bool
  GetAatServoLow :: "axis \<Rightarrow> u16"
  GetAatServoHigh :: "axis \<Rightarrow> u16"
  GetAatServoSmooth :: u8

text \<open>
  The trigonometry of \<open>calcDistAndAzimuth\<close> and \<open>calcElevation\<close> is double-precision
  floating point. Its three conversions to integers are parameters of the model:
  \<open>geo_dist\<close> is \<open>(uint32_t)dist\<close>, \<open>geo_hdg\<close> is \<open>uint32_t hdg = RAD2DEG(atan2(X, Y))\<close>,
  \<open>geo_elev\<close> is the value \<open>calcElevation\<close> returns.
\<close>

record geodesy =
  geo_dist :: "i32 \<Rightarrow> i32 \<Rightarrow> i32 \<Rightarrow> i32 \<Rightarrow> u32"
  geo_hdg :: "i32 \<Rightarrow> i32 \<Rightarrow> i32 \<Rightarrow> i32 \<Rightarrow> u32"
  geo_elev :: "u32 \<Rightarrow> i32 \<Rightarrow> i32"

text \<open>The fields of a decoded GPS frame, already in host byte order.\<close>

record packet =
  p_lat :: i32
  p_lon :: i32
  p_speed :: u16
  p_heading :: u16
  p_altitude :: u16
  p_satcnt :: u8

section \<open>Operations\<close>

definition calcDistAndAzimuth :: "geodesy \<Rightarrow> i32 \<Rightarrow> i32 \<Rightarrow> i32 \<Rightarrow> i32 \<Rightarrow> u32 \<times> u32" where
  "calcDistAndAzimuth g srcLat srcLon dstLat dstLon =
     (let dist = geo_dist g srcLat srcLon dstLat dstLon;
          hdg = geo_hdg g srcLat srcLon dstLat dstLon
      in (dist, (hdg + 360) mod 360))"

definition calcElevation :: "geodesy \<Rightarrow> u32 \<Rightarrow> i32 \<Rightarrow> i32" where
  "calcElevation g distance alt = geo_elev g distance alt"

text \<open>The constructor: every field is zero.\<close>

definition AatModule :: aat where
  "AatModule =
     \<lparr> gpsLast = \<lparr> lat = 0, lon = 0, speed = 0, heading = 0, altitude = 0,
                   lastUpdateMs = 0, satcnt = 0, updated = False \<rparr>,
       home = \<lparr> home_lat = 0, home_lon = 0, home_alt = 0 \<rparr>,
       gpsAvgUpdateInterval = 0, lastServoUpdateMs = 0, targetDistance = 0,
       targetAzim = 0, targetElev = 0, azimMsPerDegree = 0,
       servoPos = (\<lambda>_. 0) \<rparr>"

text \<open>\<open>Init\<close>, with both servo pins defined: each axis starts at the midpoint, times 100.\<close>

definition servoMid :: "config \<Rightarrow> axis \<Rightarrow> i32" where
  "servoMid cfg idx =
     word_of_int (sint (ucast (GetAatServoLow cfg idx) + ucast (GetAatServoHigh cfg idx) :: i32) sdiv 2) * 100"

definition Init :: "config \<Rightarrow> aat \<Rightarrow> aat" where
  "Init cfg s = s\<lparr> servoPos := (\<lambda>idx. servoMid cfg idx) \<rparr>"

definition SendGpsTelemetry :: "packet \<Rightarrow> aat \<Rightarrow> aat" where
  "SendGpsTelemetry p s =
     s\<lparr> gpsLast := (gpsLast s)\<lparr> lat := p_lat p, lon := p_lon p, speed := p_speed p,
                                heading := p_heading p,
                                altitude := ucast (p_altitude p) - 1000,
                                satcnt := p_satcnt p, updated := True \<rparr> \<rparr>"

definition GPS_UPDATE_INTERVAL_MAX :: u32 where
  "GPS_UPDATE_INTERVAL_MAX = 10 * 1000 * 100"

definition updateGpsInterval :: "u32 \<Rightarrow> aat \<Rightarrow> aat" where
  "updateGpsInterval interval0 s =
     (let interval = interval0 * 100;
          avg = gpsAvgUpdateInterval s + word_of_int (sint (interval - gpsAvgUpdateInterval s) sdiv 4)
      in s\<lparr> gpsAvgUpdateInterval :=
               (if avg > GPS_UPDATE_INTERVAL_MAX then GPS_UPDATE_INTERVAL_MAX else avg) \<rparr>)"

definition calcGpsIntervalPct :: "u32 \<Rightarrow> aat \<Rightarrow> u8 option" where
  "calcGpsIntervalPct now s =
     (if gpsAvgUpdateInterval s \<noteq> 0
      then map_option (\<lambda>q. ucast (constrain_u32 q 0 100))
             (u32_div ((now - lastUpdateMs (gpsLast s)) * (100 * 100)) (gpsAvgUpdateInterval s))
      else Some 0)"

text \<open>\<open>int32_t azimDelta = (azimuth - _targetAzim + 540) % 360 - 180\<close>, in unsigned arithmetic.\<close>

definition azimDelta :: "u32 \<Rightarrow> u16 \<Rightarrow> i32" where
  "azimDelta azimuth tgt = (azimuth - ucast tgt + 540) mod 360 - 180"

text \<open>
  Lines 159 to 177 of \<open>processGps\<close>: the target vector of the fix, and, unless this fix
  has just set home, the average interval and the angular rate.
\<close>

definition processGps_track :: "config \<Rightarrow> geodesy \<Rightarrow> bool \<Rightarrow> u32 \<Rightarrow> aat \<Rightarrow> aat option" where
  "processGps_track cfg g didSetHome interval s =
     (let (distance, azimuth) =
             calcDistAndAzimuth g (home_lat (home s)) (home_lon (home s))
               (lat (gpsLast s)) (lon (gpsLast s));
          elevation = (ucast (constrain_i32
                         (calcElevation g distance (altitude (gpsLast s) - home_alt (home s)))
                         0 90) :: u8);
          r = (if \<not> didSetHome
               then (let s' = updateGpsInterval interval s;
                         d = azimDelta azimuth (targetAzim s')
                     in if d = 0 then Some (s'\<lparr> azimMsPerDegree := 0 \<rparr>)
                        else map_option (\<lambda>q. s'\<lparr> azimMsPerDegree := q \<rparr>) (i32_div interval d))
               else Some s)
      in map_option
           (\<lambda>s'. s'\<lparr> targetDistance := distance, targetElev := elevation,
                     targetAzim := ucast azimuth \<rparr>) r)"

definition setHome :: "aat \<Rightarrow> aat" where
  "setHome s = s\<lparr> home := \<lparr> home_lat = lat (gpsLast s), home_lon = lon (gpsLast s),
                             home_alt = altitude (gpsLast s) \<rparr> \<rparr>"

text \<open>
  \<open>isHomeSet()\<close> is declared in module_aat.h, which is not among the sources. It takes
  no argument; the model takes it as a parameter \<open>isHomeSet\<close>, a predicate on the stored
  home position.
\<close>

text \<open>\<open>uint32_t interval = now - _gpsLast.lastUpdateMs\<close>: the time since the last processed fix.\<close>

definition fixInterval :: "u32 \<Rightarrow> aat \<Rightarrow> u32" where
  "fixInterval now s = now - lastUpdateMs (gpsLast s)"

definition processGps ::
  "config \<Rightarrow> geodesy \<Rightarrow> (homepos \<Rightarrow> bool) \<Rightarrow> u32 \<Rightarrow> aat \<Rightarrow> aat option" where
  "processGps cfg g isHomeSet now s0 =
     (if \<not> updated (gpsLast s0) then Some s0
      else
        let interval = fixInterval now s0;
            s = s0\<lparr> gpsLast := (gpsLast s0)\<lparr> updated := False, lastUpdateMs := now \<rparr> \<rparr>
        in if \<not> isHomeSet (home s)
           then (if satcnt (gpsLast s) \<ge> GetAatSatelliteHomeMin cfg
                 then processGps_track cfg g True interval (setHome s)
                 else Some s)
           else processGps_track cfg g False interval s)"

definition azimMsPDLimited :: "i32 \<Rightarrow> i32" where
  "azimMsPDLimited r =
     (if sint r > - 10 \<and> sint r < 10
      then (if sint r > 0 then 10 else - 10)
      else r)"

definition calcProjectedAzim :: "config \<Rightarrow> u32 \<Rightarrow> aat \<Rightarrow> i32 option" where
  "calcProjectedAzim cfg now s =
     (if GetAatProject cfg \<and> gpsAvgUpdateInterval s \<noteq> 0 \<and> azimMsPerDegree s \<noteq> 0
         \<and> targetDistance s > 3
      then
        let elapsed = constrain_u32 (now - lastUpdateMs (gpsLast s)) 0 (gpsAvgUpdateInterval s div 100)
        in map_option (\<lambda>q. i32_mod360 (q + ucast (targetAzim s) + 360))
             (i32_div elapsed (azimMsPDLimited (azimMsPerDegree s)))
      else Some (ucast (targetAzim s)))"

text \<open>The body of the loop over the axes in \<open>servoUpdate\<close>.\<close>

definition servoAxis :: "config \<Rightarrow> (axis \<Rightarrow> i32) \<Rightarrow> axis \<Rightarrow> aat \<Rightarrow> aat option" where
  "servoAxis cfg newServoPos idx s =
     (let range = 100 * (ucast (GetAatServoHigh cfg idx) - ucast (GetAatServoLow cfg idx));
          diff = newServoPos idx - servoPos s idx
      in case i32_div (i32_abs diff * 100) range of
           None \<Rightarrow> None
         | Some pct \<Rightarrow>
             if sint pct > 80 then Some (s\<lparr> servoPos := (servoPos s)(idx := newServoPos idx) \<rparr>)
             else map_option (\<lambda>q. s\<lparr> servoPos := (servoPos s)(idx := servoPos s idx + q) \<rparr>)
                    (i32_div diff (ucast (GetAatServoSmooth cfg) + 1)))"

text \<open>
  The first half of \<open>servoUpdate\<close>: the projected azimuth, turned by 180 degrees, and the
  elevation are mapped onto the configured pulse widths, times 100.
\<close>

definition newServoPos :: "config \<Rightarrow> u32 \<Rightarrow> aat \<Rightarrow> (axis \<Rightarrow> i32) option" where
  "newServoPos cfg now s =
     Option.bind (calcProjectedAzim cfg now s) (\<lambda>projectedAzim.
     Option.bind (map_long (i32_mod360 (projectedAzim + 180)) 0 360
                    (ucast (GetAatServoLow cfg IDX_AZIM)) (ucast (GetAatServoHigh cfg IDX_AZIM))) (\<lambda>ma.
     Option.bind (map_long (ucast (targetElev s)) 0 90
                    (ucast (GetAatServoLow cfg IDX_ELEV)) (ucast (GetAatServoHigh cfg IDX_ELEV))) (\<lambda>me.
     Some (\<lambda>idx. case idx of IDX_AZIM \<Rightarrow> 100 * ma | IDX_ELEV \<Rightarrow> 100 * me))))"

definition servoUpdate :: "config \<Rightarrow> u32 \<Rightarrow> aat \<Rightarrow> aat option" where
  "servoUpdate cfg now s0 =
     (if now - lastServoUpdateMs s0 < 20 then Some s0
      else
        let s = s0\<lparr> lastServoUpdateMs := now \<rparr>
        in Option.bind (newServoPos cfg now s) (\<lambda>new.
           Option.bind (servoAxis cfg new IDX_AZIM s) (servoAxis cfg new IDX_ELEV)))"

definition DELAY_FIRST_UPDATE :: u32 where
  "DELAY_FIRST_UPDATE = 5000"

text \<open>\<open>Loop\<close>: the display, the idle delay and the base class's loop leave the state alone.\<close>

definition Loop :: "config \<Rightarrow> geodesy \<Rightarrow> (homepos \<Rightarrow> bool) \<Rightarrow> u32 \<Rightarrow> aat \<Rightarrow> aat option" where
  "Loop cfg g isHomeSet now s =
     (case processGps cfg g isHomeSet now s of
        None \<Rightarrow> None
      | Some s1 \<Rightarrow>
          if isHomeSet (home s1) \<and> now > DELAY_FIRST_UPDATE then servoUpdate cfg now s1
          else Some s1)"

text \<open>
  What happens to the module after \<open>Init\<close>: a GPS frame arrives (\<open>onCrsfPacketIn\<close> calls
  \<open>SendGpsTelemetry\<close>), or the main loop calls \<open>Loop\<close> with the current time.
\<close>

datatype event = Frame packet | Tick u32

fun step :: "config \<Rightarrow> geodesy \<Rightarrow> (homepos \<Rightarrow> bool) \<Rightarrow> event \<Rightarrow> aat \<Rightarrow> aat option" where
  "step cfg g isHomeSet (Frame p) s = Some (SendGpsTelemetry p s)"
| "step cfg g isHomeSet (Tick now) s = Loop cfg g isHomeSet now s"

fun run :: "config \<Rightarrow> geodesy \<Rightarrow> (homepos \<Rightarrow> bool) \<Rightarrow> event list \<Rightarrow> aat \<Rightarrow> aat option" where
  "run cfg g isHomeSet [] s = Some s"
| "run cfg g isHomeSet (e # es) s =
     (case step cfg g isHomeSet e s of None \<Rightarrow> None | Some s' \<Rightarrow> run cfg g isHomeSet es s')"

section \<open>Concrete configurations, fixes and runs\<close>

text \<open>Servo end points of 1000 and 2000 microseconds on both axes, home from six satellites on.\<close>

definition cfg_example :: config where
  "cfg_example =
     \<lparr> GetAatSatelliteHomeMin = 6, GetAatProject = True,
       GetAatServoLow = (\<lambda>_. 1000), GetAatServoHigh = (\<lambda>_. 2000), GetAatServoSmooth = 3 \<rparr>"

text \<open>The same with smoothing switched off.\<close>

definition cfg_direct :: config where
  "cfg_direct = cfg_example\<lparr> GetAatServoSmooth := 0 \<rparr>"

text \<open>One possible \<open>isHomeSet\<close>: home is set once its latitude or longitude is not zero.\<close>

definition isHomeSet_nonzero :: "homepos \<Rightarrow> bool" where
  "isHomeSet_nonzero h \<longleftrightarrow> \<not> (home_lat h = 0 \<and> home_lon h = 0)"

text \<open>
  What the floating-point code yields on the fixes used below: a target at the position
  of home is at distance 0, the others are 5 m away; the fix to the east of north is at
  10 degrees, the others at 0; all are level with home.
\<close>

definition g_example :: geodesy where
  "g_example =
     \<lparr> geo_dist = (\<lambda>srcLat srcLon dstLat dstLon. if dstLat = srcLat \<and> dstLon = srcLon then 0 else 5),
       geo_hdg = (\<lambda>srcLat srcLon dstLat dstLon. if dstLon - srcLon = 80 then 10 else 0),
       geo_elev = (\<lambda>distance alt. 0) \<rparr>"

definition gps_fix :: "i32 \<Rightarrow> i32 \<Rightarrow> u8 \<Rightarrow> packet" where
  "gps_fix la lo n =
     \<lparr> p_lat = la, p_lon = lo, p_speed = 0, p_heading = 0, p_altitude = 1100, p_satcnt = n \<rparr>"

text \<open>
  A run in which the link drops twice: home is set at 1 s, the next fix is processed 40 s
  later at 10 degrees, a third one 100 ms after that at 0 degrees, and then no more.
\<close>

definition lost_link_run :: "event list" where
  "lost_link_run =
     [Frame (gps_fix 10000 10000 8), Tick 1000,
      Frame (gps_fix 10450 10080 8), Tick 41000,
      Frame (gps_fix 10450 10000 8), Tick 41100]"

definition lost_link_state :: "aat option" where
  "lost_link_state =
     run cfg_direct g_example isHomeSet_nonzero lost_link_run (Init cfg_direct AatModule)"

text \<open>A module with both servos at \<open>pos\<close> and the target at elevation \<open>elev\<close>.\<close>

definition servo_at :: "i32 \<Rightarrow> u8 \<Rightarrow> aat" where
  "servo_at pos elev = AatModule\<lparr> targetElev := elev, servoPos := (\<lambda>_. pos) \<rparr>"

text \<open>A module that holds a fresh fix from \<open>n\<close> satellites and has no home yet.\<close>

definition fresh_fix :: "u8 \<Rightarrow> aat" where
  "fresh_fix n = SendGpsTelemetry (gps_fix 10000 10000 n) (Init cfg_example AatModule)"

text \<open>A module that has its home and holds a fresh fix 10 degrees east of north of it.\<close>

definition tracking_fix :: aat where
  "tracking_fix = SendGpsTelemetry (gps_fix 10450 10080 8) (setHome (fresh_fix 7))"

text \<open>
  A fix from 8 satellites at latitude 0, longitude 0 and altitude 0 (the altitude field
  carries an offset of 1000): the position the constructor gives to home.
\<close>

definition null_fix :: packet where
  "null_fix = (gps_fix 0 0 8)\<lparr> p_altitude := 1000 \<rparr>"

section \<open>The servo policy in integers\<close>

text \<open>
  The position of one axis after a tick as the specification words it, on unbounded
  integers: with \<open>range = 100 * (high - low)\<close> and \<open>delta = new - cur\<close>, the position
  snaps to \<open>new\<close> if \<open>|delta| * 100 / range > 80\<close> and advances by
  \<open>delta / (smoothingFactor + 1)\<close> otherwise.
\<close>

definition servoStep :: "config \<Rightarrow> axis \<Rightarrow> int \<Rightarrow> int \<Rightarrow> int" where
  "servoStep cfg idx cur new =
     (let range = 100 * (uint (GetAatServoHigh cfg idx) - uint (GetAatServoLow cfg idx));
          delta = new - cur
      in if \<bar>delta\<bar> * 100 sdiv range > 80 then new
         else cur + delta sdiv (uint (GetAatServoSmooth cfg) + 1))"

section \<open>Words as integers\<close>

lemma sint_ucast16: "sint (ucast (w::u16) :: i32) = uint w"
proof -
  have "uint w < 2 ^ 16" using uint_bounded [of w] by simp
  then have "uint w < 2 ^ 31" by simp
  moreover have "- (2 ^ 31) \<le> uint w" by (rule order_trans [OF _ uint_nonnegative]) simp
  ultimately show ?thesis
    by (simp add: signed_ucast_eq signed_take_bit_int_eq_self)
qed

lemma sint_of_int_32:
  "- 2147483648 \<le> k \<Longrightarrow> k < 2147483648 \<Longrightarrow> sint (word_of_int k :: i32) = k"
  by (simp add: sint_sbintrunc' signed_take_bit_int_eq_self)


lemma azimDelta_eq: "azimDelta a t = word_of_int (uint ((a - ucast t + 540) mod 360) - 180)"
  by (simp add: azimDelta_def)

lemma uint_mod360: "uint ((x::u32) mod 360) = uint x mod 360"
  by (simp add: uint_mod_distrib)

lemma azimDelta_sint: "sint (azimDelta a t) = uint (a - ucast t + 540) mod 360 - 180"
proof -
  let ?m = "uint (a - ucast t + 540) mod 360"
  have "0 \<le> ?m" "?m < 360" by simp_all
  then have "sint (word_of_int (?m - 180) :: i32) = ?m - 180"
    by (intro sint_of_int_32) linarith+
  then show ?thesis by (simp add: azimDelta_eq uint_mod360)
qed

lemma azimDelta_range: "- 180 \<le> sint (azimDelta a t) \<and> sint (azimDelta a t) \<le> 179"
proof -
  let ?m = "uint (a - ucast t + 540) mod 360"
  have "0 \<le> ?m" "?m < 360" by simp_all
  then show ?thesis unfolding azimDelta_sint by linarith
qed

lemma uint_ucast16: "uint (ucast (t::u16) :: u32) = uint t"
  by (simp add: unsigned_ucast_eq take_bit_int_eq_self  order_less_trans [OF uint_bounded])

lemma mod360_shift: "(x mod 360 - x + 360) mod 360 = 0" for x :: int
proof -
  have "x mod 360 - x + 360 = 360 * (1 - x div 360)"
    using mult_div_mod_eq [of 360 x] by (simp add: algebra_simps)
  then show ?thesis by simp
qed

lemma azimDelta_cong:
  assumes "uint a < 360" "uint t < 360"
  shows "(sint (azimDelta a t) - (uint a - uint t)) mod 360 = 0"
proof -
  define y where "y = uint a - uint t + 540"
  have "uint (a - ucast t + 540 :: u32) = y mod 4294967296"
    by (simp add: y_def uint_word_ariths uint_ucast16 mod_simps)
  also have "\<dots> = y"
    using assms uint_nonnegative [of a] uint_nonnegative [of t]
    unfolding y_def by (intro mod_pos_pos_trivial) linarith+
  finally have "sint (azimDelta a t) = y mod 360 - 180"
    by (simp add: azimDelta_sint)
  then have "sint (azimDelta a t) - (uint a - uint t) = y mod 360 - y + 360"
    by (simp add: y_def)
  then show ?thesis by (simp only: mod360_shift)
qed

lemma calcDistAndAzimuth_azim: "uint (snd (calcDistAndAzimuth g a b c d)) < 360"
  by (simp add: calcDistAndAzimuth_def Let_def uint_mod360)

lemma sint_32_eq: "sint (a::i32) = uint a - 4294967296 * of_bool (bit (uint a) 31)"
proof -
  have "take_bit 32 (uint a) = uint a"
    using uint_bounded [of a] by (simp add: take_bit_int_eq_self)
  then show ?thesis
    by (simp add: sint_uint signed_take_bit_eq_take_bit_minus)
qed

lemma sint_nonneg_uint: "0 \<le> sint (a::i32) \<Longrightarrow> sint a = uint a"
proof -
  assume "0 \<le> sint a"
  then have "\<not> bit (uint a) 31" by (simp add: sint_uint)
  then show ?thesis by (simp add: sint_32_eq)
qed

lemma i32_div_exact:
  assumes "b \<noteq> 0" "0 \<le> sint a"
  shows "\<exists>q. i32_div a b = Some q \<and> sint q = uint a sdiv sint b"
proof -
  have r: "sint a sdiv sint b \<in> {- \<bar>sint a\<bar>..\<bar>sint a\<bar>}" by (rule sdiv_int_range)
  have lt: "sint a < 2147483648" using sint_lt [of a] by simp
  from r assms(2) lt have "- 2147483648 \<le> sint a sdiv sint b" "sint a sdiv sint b < 2147483648"
    by auto
  then have "sint (word_of_int (sint a sdiv sint b) :: i32) = sint a sdiv sint b"
    by (rule sint_of_int_32)
  moreover from assms(2) have "sint a = uint a"
    by (rule sint_nonneg_uint)
  ultimately show ?thesis using assms(1) by (simp add: i32_div_def)
qed






lemma track_rate:
  "\<exists>s'. processGps_track cfg g False interval s = Some s'
      \<and> azimMsPerDegree s' =
          (let d = azimDelta (snd (calcDistAndAzimuth g (home_lat (home s)) (home_lon (home s))
                                     (lat (gpsLast s)) (lon (gpsLast s)))) (targetAzim s)
           in if d = 0 then 0 else word_of_int (sint interval sdiv sint d))"
  by (auto simp add: processGps_track_def Let_def i32_div_def updateGpsInterval_def split: prod.splits)

lemma sint_zero_iff: "sint (d::i32) = 0 \<longleftrightarrow> d = 0"
  by (simp add: signed_eq_0_iff)



section \<open>Home\<close>

lemma track_home_set:
  "\<exists>s'. processGps_track cfg g True interval s = Some s' \<and> home s' = home s
     \<and> gpsAvgUpdateInterval s' = gpsAvgUpdateInterval s \<and> azimMsPerDegree s' = azimMsPerDegree s
     \<and> gpsLast s' = gpsLast s \<and> servoPos s' = servoPos s"
  by (simp add: processGps_track_def Let_def split: prod.splits)

lemma track_total:
  "\<exists>s'. processGps_track cfg g b interval s = Some s' \<and> home s' = home s
      \<and> servoPos s' = servoPos s \<and> lastServoUpdateMs s' = lastServoUpdateMs s"
  by (auto simp add: processGps_track_def Let_def i32_div_def updateGpsInterval_def split: prod.splits)

lemma processGps_total: "\<exists>s'. processGps cfg g hs now s = Some s'"
  using track_total[of cfg g] by (simp add: processGps_def Let_def) blast

lemma processGps_home_kept:
  assumes "hs (home s)" "processGps cfg g hs now s = Some s'"
  shows "home s' = home s"
proof (cases "updated (gpsLast s)")
  case False
  with assms show ?thesis by (simp add: processGps_def)
next
  case True
  let ?s = "s\<lparr> gpsLast := (gpsLast s)\<lparr> updated := False, lastUpdateMs := now \<rparr> \<rparr>"
  from True assms have "processGps_track cfg g False (now - lastUpdateMs (gpsLast s)) ?s = Some s'"
    by (simp add: processGps_def fixInterval_def Let_def)
  with track_total [of cfg g False "now - lastUpdateMs (gpsLast s)" ?s] show ?thesis by auto
qed

lemma servoAxis_home: "servoAxis cfg new idx s = Some s' \<Longrightarrow> home s' = home s"
  by (auto simp: servoAxis_def Let_def split: option.splits if_splits)

lemma servoUpdate_home: "servoUpdate cfg now s = Some s' \<Longrightarrow> home s' = home s"
  by (auto simp: servoUpdate_def Let_def split: if_splits Option.bind_splits dest!: servoAxis_home)

lemma Loop_home:
  assumes "hs (home s)" "Loop cfg g hs now s = Some s'"
  shows "home s' = home s"
proof -
  from assms(2) obtain s1 where p: "processGps cfg g hs now s = Some s1"
    and r: "servoUpdate cfg now s1 = Some s' \<or> s' = s1"
    by (auto simp: Loop_def split: option.splits if_splits)
  from processGps_home_kept [OF assms(1) p] have "home s1 = home s" .
  with r servoUpdate_home [of cfg now s1 s'] show ?thesis by auto
qed

lemma step_home:
  assumes "hs (home s)" "step cfg g hs e s = Some s'"
  shows "home s' = home s"
  using assms by (cases e) (auto simp: SendGpsTelemetry_def dest: Loop_home)

lemma run_home:
  "hs (home s) \<Longrightarrow> run cfg g hs es s = Some s' \<Longrightarrow> home s' = home s"
proof (induction es arbitrary: s)
  case Nil
  then show ?case by simp
next
  case (Cons e es)
  from Cons.prems obtain s1 where s1: "step cfg g hs e s = Some s1" and r: "run cfg g hs es s1 = Some s'"
    by (auto split: option.splits)
  from step_home [OF Cons.prems(1) s1] have h: "home s1 = home s" .
  with Cons.prems(1) have "hs (home s1)" by simp
  from Cons.IH [OF this r] h show ?case by simp
qed


section \<open>Servo arithmetic\<close>

lemma sdiv_pos: "0 < k \<Longrightarrow> (a::int) sdiv k = (if 0 \<le> a then a div k else - ((- a) div k))"
  by (simp add: signed_divide_int_def sgn_if)

lemma div_between: "0 \<le> (a::int) \<Longrightarrow> 0 < k \<Longrightarrow> 0 \<le> a div k \<and> a div k \<le> a"
  using zdiv_mono2 [of a 1 k] by (simp add: pos_imp_zdiv_nonneg_iff)

lemma sdiv_between:
  assumes "0 < (k::int)"
  shows "(0 \<le> a \<longrightarrow> 0 \<le> a sdiv k \<and> a sdiv k \<le> a) \<and> (a \<le> 0 \<longrightarrow> a \<le> a sdiv k \<and> a sdiv k \<le> 0)"
  using div_between [of a k] div_between [of "- a" k] assms
  by (auto simp: sdiv_pos [OF assms])

lemma sint_range32: "- 2147483648 \<le> sint (a::i32) \<and> sint a < 2147483648"
  using sint_ge [of a] sint_lt [of a] by simp

lemma sint_range_of:
  "sint (ucast (h::u16) - ucast (l::u16) :: i32) = uint h - uint l"
proof -
  have "(ucast h - ucast l :: i32) = word_of_int (sint (ucast h :: i32) - sint (ucast l :: i32))"
    by simp
  then have e: "(ucast h - ucast l :: i32) = word_of_int (uint h - uint l)"
    by (simp only: sint_ucast16)
  have "uint h < 65536" "uint l < 65536" "0 \<le> uint h" "0 \<le> uint l"
    using uint_bounded [of h] uint_bounded [of l] by simp_all
  then have r: "- 2147483648 \<le> uint h - uint l" "uint h - uint l < 2147483648"
    by linarith+
  show ?thesis unfolding e by (rule sint_of_int_32 [OF r])
qed

lemma bounds16:
  "0 \<le> (a::int) \<Longrightarrow> a < 65536 \<Longrightarrow> 0 \<le> b \<Longrightarrow> b < 65536 \<Longrightarrow>
     - 2147483648 \<le> 100 * (a - b) \<and> 100 * (a - b) < 2147483648"
  by auto

lemma bounds8: "0 \<le> (a::int) \<Longrightarrow> a < 256 \<Longrightarrow> - 2147483648 \<le> a \<and> a < 2147483648"
  by auto

lemma servo_range:
  "sint (100 * (ucast (h::u16) - ucast (l::u16)) :: i32) = 100 * (uint h - uint l)"
proof -
  have "(100 * (ucast h - ucast l) :: i32) = word_of_int (100 * sint (ucast h - ucast l :: i32))"
    by simp
  then have e: "(100 * (ucast h - ucast l) :: i32) = word_of_int (100 * (uint h - uint l))"
    by (simp only: sint_range_of)
  have "uint h < 65536" "uint l < 65536"
    using uint_bounded [of h] uint_bounded [of l] by simp_all
  with bounds16 [of "uint h" "uint l"]
  have r: "- 2147483648 \<le> 100 * (uint h - uint l)" "100 * (uint h - uint l) < 2147483648"
    by simp_all
  show ?thesis unfolding e by (rule sint_of_int_32 [OF r])
qed

lemma servo_smooth: "sint (ucast (k::u8) + 1 :: i32) = uint k + 1"
proof -
  have b: "uint k < 256" "0 \<le> uint k" using uint_bounded [of k] by simp_all
  have "- 2147483648 \<le> uint k \<and> uint k < 2147483648"
    by (rule bounds8 [OF uint_nonnegative b(1)])
  then have r: "- 2147483648 \<le> uint k" "uint k < 2147483648" by blast+
  have "signed_take_bit 31 (uint k) = uint k"
    using r by (intro signed_take_bit_int_eq_self) simp_all
  then have u: "sint (ucast k :: i32) = uint k"
    by (simp add: signed_ucast_eq)
  have "(ucast k + 1 :: i32) = word_of_int (sint (ucast k :: i32) + 1)" by simp
  then have e: "(ucast k + 1 :: i32) = word_of_int (uint k + 1)" by (simp only: u)
  from b r have r': "- 2147483648 \<le> uint k + 1" "uint k + 1 < 2147483648" by linarith+
  show ?thesis unfolding e by (rule sint_of_int_32 [OF r'])
qed

lemma servoAxis_int:
  assumes ne: "GetAatServoHigh cfg idx \<noteq> GetAatServoLow cfg idx"
    and b: "\<bar>sint (new idx) - sint (servoPos s idx)\<bar> * 100 < 2147483648"
  shows "\<exists>s'. servoAxis cfg new idx s = Some s'
           \<and> (\<forall>j. j \<noteq> idx \<longrightarrow> servoPos s' j = servoPos s j)
           \<and> sint (servoPos s' idx) = servoStep cfg idx (sint (servoPos s idx)) (sint (new idx))"
proof -
  define R where "R = 100 * (uint (GetAatServoHigh cfg idx) - uint (GetAatServoLow cfg idx))"
  define r :: i32 where "r = 100 * (ucast (GetAatServoHigh cfg idx) - ucast (GetAatServoLow cfg idx))"
  define \<delta> where "\<delta> = sint (new idx) - sint (servoPos s idx)"
  define diff :: i32 where "diff = new idx - servoPos s idx"
  define K where "K = uint (GetAatServoSmooth cfg) + 1"
  define k :: i32 where "k = ucast (GetAatServoSmooth cfg) + 1"
  have sr: "sint r = R" unfolding r_def R_def by (rule servo_range)
  have "uint (GetAatServoHigh cfg idx) \<noteq> uint (GetAatServoLow cfg idx)"
    using ne by (simp add: word_uint_eq_iff)
  then have "R \<noteq> 0" by (simp add: R_def)
  with sr have r0: "r \<noteq> 0" by auto
  have sk: "sint k = K" unfolding k_def K_def by (rule servo_smooth)
  have K1: "0 < K" by (simp add: K_def)
  with sk have k0: "k \<noteq> 0" by auto
  have db: "\<bar>\<delta>\<bar> * 100 < 2147483648" using b by (simp add: \<delta>_def)
  then have db': "- 2147483648 \<le> \<delta>" "\<delta> < 2147483648" "- 2147483648 \<le> - \<delta>" "- \<delta> < 2147483648"
    by linarith+
  have "diff = word_of_int \<delta>" by (simp add: diff_def \<delta>_def)
  then have sd: "sint diff = \<delta>" using db'(1,2) by (simp only: sint_of_int_32)
  have "- diff = word_of_int (- \<delta>)" using \<open>diff = word_of_int \<delta>\<close> by simp
  then have snd: "sint (- diff) = - \<delta>" using db'(3,4) by (simp only: sint_of_int_32)
  have sa: "sint (i32_abs diff) = \<bar>\<delta>\<bar>"
    by (simp add: i32_abs_def sd snd)
  have "i32_abs diff * 100 = word_of_int (sint (i32_abs diff) * 100)" by simp
  then have "i32_abs diff * 100 = word_of_int (\<bar>\<delta>\<bar> * 100)" by (simp only: sa)
  moreover have "- 2147483648 \<le> \<bar>\<delta>\<bar> * 100" by linarith
  ultimately have sm: "sint (i32_abs diff * 100) = \<bar>\<delta>\<bar> * 100"
    using db by (simp only: sint_of_int_32)
  define P where "P = \<bar>\<delta>\<bar> * 100 sdiv R"
  have "P \<in> {- \<bar>\<bar>\<delta>\<bar> * 100\<bar>..\<bar>\<bar>\<delta>\<bar> * 100\<bar>}" unfolding P_def by (rule sdiv_int_range)
  then have Pb: "- 2147483648 \<le> P" "P < 2147483648" using db by auto
  have sp: "sint (word_of_int P :: i32) = P" by (rule sint_of_int_32 [OF Pb])
  have pct: "i32_div (i32_abs diff * 100) r = Some (word_of_int P)"
    using r0 by (simp add: i32_div_def sm sr P_def)
  define Q where "Q = \<delta> sdiv K"
  have stp: "i32_div diff k = Some (word_of_int Q)"
    using k0 by (simp add: i32_div_def sd sk Q_def)
  have Qb: "(0 \<le> \<delta> \<longrightarrow> 0 \<le> Q \<and> Q \<le> \<delta>) \<and> (\<delta> \<le> 0 \<longrightarrow> \<delta> \<le> Q \<and> Q \<le> 0)"
    unfolding Q_def by (rule sdiv_between [OF K1])
  have cr: "- 2147483648 \<le> sint (servoPos s idx)" "sint (servoPos s idx) < 2147483648"
       "- 2147483648 \<le> sint (new idx)" "sint (new idx) < 2147483648"
    using sint_range32 [of "servoPos s idx"] sint_range32 [of "new idx"] by simp_all
  have "servoPos s idx + word_of_int Q = (word_of_int (sint (servoPos s idx) + Q) :: i32)" by simp
  moreover have "- 2147483648 \<le> sint (servoPos s idx) + Q" "sint (servoPos s idx) + Q < 2147483648"
    using Qb cr unfolding \<delta>_def by linarith+
  ultimately have ss: "sint (servoPos s idx + word_of_int Q) = sint (servoPos s idx) + Q"
    by (simp only: sint_of_int_32)
  show ?thesis
    unfolding servoAxis_def servoStep_def Let_def r_def [symmetric] diff_def [symmetric]
      k_def [symmetric] R_def [symmetric] \<delta>_def [symmetric] K_def [symmetric]
    using pct stp sp ss by (simp add: P_def [symmetric] Q_def [symmetric])
qed

lemma azimMsPDLimited_nonzero: "r \<noteq> 0 \<Longrightarrow> azimMsPDLimited r \<noteq> 0"
  by (simp add: azimMsPDLimited_def)

lemma calcProjectedAzim_total: "\<exists>a. calcProjectedAzim cfg now s = Some a"
  by (simp add: calcProjectedAzim_def Let_def i32_div_def azimMsPDLimited_nonzero)

lemma map_long_total: "in_max - in_min \<noteq> 0 \<Longrightarrow> \<exists>m. map_long x in_min in_max out_min out_max = Some m"
  by (simp add: map_long_def i32_div_def)

lemma newServoPos_total: "\<exists>new. newServoPos cfg now s = Some new"
proof -
  obtain a where a: "calcProjectedAzim cfg now s = Some a"
    using calcProjectedAzim_total by blast
  obtain ma where ma: "map_long (i32_mod360 (a + 180)) 0 360
      (ucast (GetAatServoLow cfg IDX_AZIM)) (ucast (GetAatServoHigh cfg IDX_AZIM)) = Some ma"
    using map_long_total [of 360 0 "i32_mod360 (a + 180)" "ucast (GetAatServoLow cfg IDX_AZIM)"
        "ucast (GetAatServoHigh cfg IDX_AZIM)"] by auto
  obtain me where me: "map_long (ucast (targetElev s)) 0 90
      (ucast (GetAatServoLow cfg IDX_ELEV)) (ucast (GetAatServoHigh cfg IDX_ELEV)) = Some me"
    using map_long_total [of 90 0 "ucast (targetElev s)" "ucast (GetAatServoLow cfg IDX_ELEV)"
        "ucast (GetAatServoHigh cfg IDX_ELEV)"] by auto
  show ?thesis by (simp add: newServoPos_def a ma me)
qed

lemma servoUpdate_axes:
  assumes t: "20 \<le> now - lastServoUpdateMs s"
    and ne: "\<forall>idx. GetAatServoHigh cfg idx \<noteq> GetAatServoLow cfg idx"
    and n: "newServoPos cfg now (s\<lparr> lastServoUpdateMs := now \<rparr>) = Some new"
    and b: "\<forall>idx. \<bar>sint (new idx) - sint (servoPos s idx)\<bar> * 100 < 2147483648"
  shows "\<exists>s'. servoUpdate cfg now s = Some s'
           \<and> (\<forall>idx. sint (servoPos s' idx) = servoStep cfg idx (sint (servoPos s idx)) (sint (new idx)))"
proof -
  let ?s = "s\<lparr> lastServoUpdateMs := now \<rparr>"
  from t have nt: "\<not> now - lastServoUpdateMs s < 20" by (simp add: not_less)
  have b1: "\<bar>sint (new IDX_AZIM) - sint (servoPos ?s IDX_AZIM)\<bar> * 100 < 2147483648"
    using b by simp
  from servoAxis_int [where idx = IDX_AZIM and new = new and s = "?s" and cfg = cfg,
      OF ne [rule_format] b1]
  obtain s1 where s1: "servoAxis cfg new IDX_AZIM ?s = Some s1"
    and k1: "servoPos s1 IDX_ELEV = servoPos s IDX_ELEV"
    and v1: "sint (servoPos s1 IDX_AZIM) =
               servoStep cfg IDX_AZIM (sint (servoPos s IDX_AZIM)) (sint (new IDX_AZIM))"
    by auto
  have b2: "\<bar>sint (new IDX_ELEV) - sint (servoPos s1 IDX_ELEV)\<bar> * 100 < 2147483648"
    using b k1 by simp
  from servoAxis_int [where idx = IDX_ELEV and new = new and s = s1 and cfg = cfg,
      OF ne [rule_format] b2]
  obtain s2 where s2: "servoAxis cfg new IDX_ELEV s1 = Some s2"
    and k2: "servoPos s2 IDX_AZIM = servoPos s1 IDX_AZIM"
    and v2: "sint (servoPos s2 IDX_ELEV) =
               servoStep cfg IDX_ELEV (sint (servoPos s IDX_ELEV)) (sint (new IDX_ELEV))"
    using k1 by auto
  have u: "servoUpdate cfg now s = Some s2"
    using nt n s1 s2 by (simp add: servoUpdate_def Let_def)
  have "sint (servoPos s2 idx) = servoStep cfg idx (sint (servoPos s idx)) (sint (new idx))" for idx
    by (cases idx) (simp_all add: k2 v1 v2)
  with u show ?thesis by blast
qed

text \<open>
  With end points low < high, positions within them, a projected azimuth in [0, 360) and
  an elevation of at most 90 degrees, \<open>servoUpdate\<close> keeps every position within the end
  points; \<open>Init\<close> puts them there.
\<close>

lemma servoStep_between:
  "min cur new \<le> servoStep cfg idx cur new \<and> servoStep cfg idx cur new \<le> max cur new"
proof -
  have K: "0 < uint (GetAatServoSmooth cfg) + 1" by simp
  from sdiv_between [OF K, of "new - cur"] show ?thesis
    by (auto simp: servoStep_def Let_def min_def max_def)
qed

lemma scale_le:
  assumes "0 \<le> (X::int)" "X \<le> M" "0 < M" "0 \<le> D"
  shows "0 \<le> X * D div M \<and> X * D div M \<le> D"
proof -
  have "X * D \<le> M * D" using assms by (intro mult_right_mono) simp_all
  then have "X * D div M \<le> M * D div M" using assms(3) by (intro zdiv_mono1) simp_all
  moreover have "M * D div M = D" using assms(3) by simp
  moreover have "0 \<le> X * D" using assms by simp
  then have "0 \<le> X * D div M" using assms(3) by (simp add: pos_imp_zdiv_nonneg_iff)
  ultimately show ?thesis by simp
qed

lemma map_long_bounds:
  assumes x: "0 \<le> sint x" "sint x \<le> M" and n: "sint n = M" and M: "0 < M" "M \<le> 360"
    and lh: "uint (l::u16) \<le> uint (h::u16)"
  shows "\<exists>m. map_long x 0 n (ucast l) (ucast h) = Some m
           \<and> sint (100 * m) = 100 * (sint x * (uint h - uint l) sdiv M + uint l)
           \<and> 100 * uint l \<le> sint (100 * m) \<and> sint (100 * m) \<le> 100 * uint h"
proof -
  define L where "L = uint l"
  define H where "H = uint h"
  define X where "X = sint x"
  have Lb: "0 \<le> L" "L < 65536" and Hb: "0 \<le> H" "H < 65536"
    using uint_bounded [of l] uint_bounded [of h] by (simp_all add: L_def H_def)
  have LH: "L \<le> H" using lh by (simp add: L_def H_def)
  have Xb: "0 \<le> X" "X \<le> M" using x by (simp_all add: X_def)
  have sD: "sint (ucast h - ucast l :: i32) = H - L"
    unfolding H_def L_def by (rule sint_range_of)
  have "X * (H - L) \<le> 360 * 65536"
    using Xb M LH Hb Lb by (intro mult_mono) simp_all
  then have Pb: "- 2147483648 \<le> X * (H - L)" "X * (H - L) < 2147483648"
    using Xb LH by (simp_all add: order_trans [of "- 2147483648" 0])
  have "x * (ucast h - ucast l) = (word_of_int (sint x * sint (ucast h - ucast l :: i32)) :: i32)"
    by simp
  then have "x * (ucast h - ucast l) = (word_of_int (X * (H - L)) :: i32)"
    by (simp only: sD X_def)
  then have sP: "sint (x * (ucast h - ucast l)) = X * (H - L)"
    using Pb by (simp only: sint_of_int_32)
  have n0: "n \<noteq> 0" using n M by auto
  define q where "q = X * (H - L) sdiv M"
  have qd: "q = X * (H - L) div M"
    using Xb LH M by (simp add: q_def sdiv_pos)
  have qb: "0 \<le> q" "q \<le> H - L"
    using scale_le [of X M "H - L"] Xb M LH by (simp_all add: qd)
  have ml: "map_long x 0 n (ucast l) (ucast h) = Some (word_of_int q + ucast l)"
    using n0 by (simp add: map_long_def i32_div_def sP n q_def)
  have "100 * (word_of_int q + ucast l) = (word_of_int (100 * (q + sint (ucast l :: i32))) :: i32)"
    by simp
  then have "100 * (word_of_int q + ucast l) = (word_of_int (100 * (q + L)) :: i32)"
    by (simp only: sint_ucast16 L_def)
  moreover have "- 2147483648 \<le> 100 * (q + L)" "100 * (q + L) < 2147483648"
    using qb Lb Hb by auto
  ultimately have sm: "sint (100 * (word_of_int q + ucast l) :: i32) = 100 * (q + L)"
    by (simp only: sint_of_int_32)
  from ml sm qb show ?thesis
    unfolding q_def [symmetric] X_def [symmetric] H_def [symmetric] L_def [symmetric] n
    by simp
qed

lemma sint_ucast8: "sint (ucast (k::u8) :: i32) = uint k"
proof -
  have b: "uint k < 256" using uint_bounded [of k] by simp
  have "- 2147483648 \<le> uint k \<and> uint k < 2147483648"
    by (rule bounds8 [OF uint_nonnegative b])
  then have "signed_take_bit 31 (uint k) = uint k"
    by (intro signed_take_bit_int_eq_self) simp_all
  then show ?thesis by (simp add: signed_ucast_eq)
qed

lemma turned_azimuth:
  assumes "0 \<le> sint a" "sint a < 360"
  shows "0 \<le> sint (i32_mod360 (a + 180)) \<and> sint (i32_mod360 (a + 180)) \<le> 360"
proof -
  have "a + 180 = (word_of_int (sint a + 180) :: i32)" by simp
  moreover have "- 2147483648 \<le> sint a + 180" "sint a + 180 < 2147483648"
    using assms by linarith+
  ultimately have s: "sint (a + 180) = sint a + 180" by (simp only: sint_of_int_32)
  define y where "y = (sint a + 180) smod 360"
  have "0 \<le> sint a + 180" using assms by simp
  then have "y = (sint a + 180) mod 360" unfolding y_def by (simp add: smod_mod_positive)
  then have yb: "0 \<le> y" "y < 360" by simp_all
  then have "sint (word_of_int y :: i32) = y" by (intro sint_of_int_32) linarith+
  with yb show ?thesis by (simp add: i32_mod360_def s y_def [symmetric])
qed

lemma servoMid_in_bounds:
  assumes "uint (GetAatServoLow cfg idx) \<le> uint (GetAatServoHigh cfg idx)"
  shows "100 * uint (GetAatServoLow cfg idx) \<le> sint (servoMid cfg idx)
       \<and> sint (servoMid cfg idx) \<le> 100 * uint (GetAatServoHigh cfg idx)"
proof -
  define L where "L = uint (GetAatServoLow cfg idx)"
  define H where "H = uint (GetAatServoHigh cfg idx)"
  have Lb: "0 \<le> L" "L < 65536" and Hb: "0 \<le> H" "H < 65536"
    using uint_bounded [of "GetAatServoLow cfg idx"] uint_bounded [of "GetAatServoHigh cfg idx"]
    by (simp_all add: L_def H_def)
  have LH: "L \<le> H" using assms by (simp add: L_def H_def)
  have "(ucast (GetAatServoLow cfg idx) + ucast (GetAatServoHigh cfg idx) :: i32) =
          word_of_int (sint (ucast (GetAatServoLow cfg idx) :: i32)
                       + sint (ucast (GetAatServoHigh cfg idx) :: i32))"
    by simp
  then have "(ucast (GetAatServoLow cfg idx) + ucast (GetAatServoHigh cfg idx) :: i32) =
          word_of_int (L + H)"
    by (simp only: sint_ucast16 L_def H_def)
  moreover have "- 2147483648 \<le> L + H" "L + H < 2147483648" using Lb Hb by linarith+
  ultimately have ss: "sint (ucast (GetAatServoLow cfg idx) + ucast (GetAatServoHigh cfg idx) :: i32)
                         = L + H"
    by (simp only: sint_of_int_32)
  define m where "m = (L + H) sdiv 2"
  have "m = (L + H) div 2" using Lb Hb by (simp add: m_def sdiv_pos)
  then have mb: "L \<le> m" "m \<le> H" using LH by simp_all
  have "(word_of_int m * 100 :: i32) = word_of_int (m * 100)" by simp
  moreover have "- 2147483648 \<le> m * 100" "m * 100 < 2147483648" using mb Lb Hb by auto
  ultimately have "sint (word_of_int m * 100 :: i32) = m * 100"
    by (simp only: sint_of_int_32)
  with mb show ?thesis
    unfolding servoMid_def ss m_def [symmetric] L_def [symmetric] H_def [symmetric] by simp
qed

lemma servoUpdate_keeps_bounds:
  assumes lh: "\<forall>idx. uint (GetAatServoLow cfg idx) < uint (GetAatServoHigh cfg idx)"
    and inv: "\<forall>idx. 100 * uint (GetAatServoLow cfg idx) \<le> sint (servoPos s idx)
                  \<and> sint (servoPos s idx) \<le> 100 * uint (GetAatServoHigh cfg idx)"
    and az: "calcProjectedAzim cfg now (s\<lparr> lastServoUpdateMs := now \<rparr>) = Some a"
            "0 \<le> sint a" "sint a < 360"
    and el: "uint (targetElev s) \<le> 90"
  shows "\<exists>s'. servoUpdate cfg now s = Some s'
           \<and> (\<forall>idx. 100 * uint (GetAatServoLow cfg idx) \<le> sint (servoPos s' idx)
                    \<and> sint (servoPos s' idx) \<le> 100 * uint (GetAatServoHigh cfg idx))"
proof (cases "now - lastServoUpdateMs s < 20")
  case True
  with inv show ?thesis by (simp add: servoUpdate_def)
next
  case False
  then have t: "20 \<le> now - lastServoUpdateMs s" by (simp add: not_less)
  let ?s = "s\<lparr> lastServoUpdateMs := now \<rparr>"
  have ne: "\<forall>idx. GetAatServoHigh cfg idx \<noteq> GetAatServoLow cfg idx"
  proof (intro allI notI)
    fix idx assume "GetAatServoHigh cfg idx = GetAatServoLow cfg idx"
    with lh [rule_format, of idx] show False by simp
  qed
  have le: "uint (GetAatServoLow cfg idx) \<le> uint (GetAatServoHigh cfg idx)" for idx
    using lh [rule_format, of idx] by simp
  have s360: "sint (360 :: i32) = 360" and s90: "sint (90 :: i32) = 90" by simp_all
  from map_long_bounds [where x = "i32_mod360 (a + 180)" and n = 360 and M = 360
      and l = "GetAatServoLow cfg IDX_AZIM" and h = "GetAatServoHigh cfg IDX_AZIM"]
    turned_azimuth [OF az(2,3)] s360 le [of IDX_AZIM]
  obtain ma where ma: "map_long (i32_mod360 (a + 180)) 0 360
        (ucast (GetAatServoLow cfg IDX_AZIM)) (ucast (GetAatServoHigh cfg IDX_AZIM)) = Some ma"
    and ba: "100 * uint (GetAatServoLow cfg IDX_AZIM) \<le> sint (100 * ma)"
            "sint (100 * ma) \<le> 100 * uint (GetAatServoHigh cfg IDX_AZIM)"
    by auto
  have e: "0 \<le> sint (ucast (targetElev s) :: i32)" "sint (ucast (targetElev s) :: i32) \<le> 90"
    using el by (simp_all add: sint_ucast8)
  from map_long_bounds [where x = "ucast (targetElev s)" and n = 90 and M = 90
      and l = "GetAatServoLow cfg IDX_ELEV" and h = "GetAatServoHigh cfg IDX_ELEV"]
    e s90 le [of IDX_ELEV]
  obtain me where me: "map_long (ucast (targetElev s)) 0 90
        (ucast (GetAatServoLow cfg IDX_ELEV)) (ucast (GetAatServoHigh cfg IDX_ELEV)) = Some me"
    and be: "100 * uint (GetAatServoLow cfg IDX_ELEV) \<le> sint (100 * me)"
            "sint (100 * me) \<le> 100 * uint (GetAatServoHigh cfg IDX_ELEV)"
    by auto
  define new where "new = (\<lambda>idx. case idx of IDX_AZIM \<Rightarrow> 100 * ma | IDX_ELEV \<Rightarrow> 100 * me)"
  have n: "newServoPos cfg now ?s = Some new"
    by (simp add: newServoPos_def az(1) ma me new_def)
  have nb: "100 * uint (GetAatServoLow cfg idx) \<le> sint (new idx)
          \<and> sint (new idx) \<le> 100 * uint (GetAatServoHigh cfg idx)" for idx
    using ba be by (cases idx) (simp_all add: new_def)
  have hb: "0 \<le> uint (GetAatServoLow cfg idx)" "uint (GetAatServoHigh cfg idx) < 65536" for idx
    using uint_bounded [of "GetAatServoHigh cfg idx"] by simp_all
  have b: "\<forall>idx. \<bar>sint (new idx) - sint (servoPos s idx)\<bar> * 100 < 2147483648"
  proof
    fix idx
    from nb [of idx] inv [rule_format, of idx] hb [of idx] hb(1)
    have "\<bar>sint (new idx) - sint (servoPos s idx)\<bar> \<le> 6553500" by linarith
    then show "\<bar>sint (new idx) - sint (servoPos s idx)\<bar> * 100 < 2147483648" by simp
  qed
  from servoUpdate_axes [OF t ne n b] obtain s' where u: "servoUpdate cfg now s = Some s'"
    and v: "\<forall>idx. sint (servoPos s' idx) = servoStep cfg idx (sint (servoPos s idx)) (sint (new idx))"
    by blast
  have "100 * uint (GetAatServoLow cfg idx) \<le> sint (servoPos s' idx)
      \<and> sint (servoPos s' idx) \<le> 100 * uint (GetAatServoHigh cfg idx)" for idx
    using servoStep_between [of "sint (servoPos s idx)" "sint (new idx)" cfg idx]
      nb [of idx] inv [rule_format, of idx] v [rule_format, of idx]
    by (simp add: min_def max_def split: if_splits)
  with u show ?thesis by blast
qed


section \<open>The projector\<close>

text \<open>With a positive rate the active projection is an azimuth in [0, 360).\<close>

lemma sint_small:
  assumes "uint (w::i32) < 2147483648"
  shows "sint w = uint w"
proof -
  have "- 2147483648 \<le> uint w" by (rule order_trans [OF _ uint_nonnegative]) simp
  from sint_of_int_32 [OF this assms] show ?thesis by simp
qed

lemma elapsed_bound:
  "uint (constrain_u32 e 0 (avg div 100)) \<le> 42949672"
proof -
  have "uint (avg div 100) = uint avg div 100" by (simp add: uint_div_distrib)
  moreover have "uint avg < 4294967296" using uint_bounded [of avg] by simp
  ultimately have a: "uint (avg div 100) \<le> 42949672" by simp
  have "uint (constrain_u32 e 0 (avg div 100)) \<le> uint (avg div 100)"
    by (auto simp: constrain_u32_def word_less_def)
  with a show ?thesis by linarith
qed

lemma calcProjectedAzim_positive_rate:
  assumes act: "GetAatProject cfg" "gpsAvgUpdateInterval s \<noteq> 0" "targetDistance s > 3"
    and pos: "0 < sint (azimMsPerDegree s)"
  shows "\<exists>a. calcProjectedAzim cfg now s = Some a \<and> 0 \<le> sint a \<and> sint a < 360"
proof -
  define e where "e = constrain_u32 (now - lastUpdateMs (gpsLast s)) 0 (gpsAvgUpdateInterval s div 100)"
  define r where "r = azimMsPDLimited (azimMsPerDegree s)"
  have r0: "azimMsPerDegree s \<noteq> 0" using pos by auto
  have rp: "0 < sint r" using pos by (simp add: r_def azimMsPDLimited_def)
  then have rn: "r \<noteq> 0" by auto
  have eb: "0 \<le> uint e" "uint e \<le> 42949672"
    using elapsed_bound [of "now - lastUpdateMs (gpsLast s)" "gpsAvgUpdateInterval s"]
    by (simp_all add: e_def)
  have "uint e < 2147483648" using eb(2) by linarith
  then have se: "sint e = uint e" by (rule sint_small)
  define q where "q = sint e sdiv sint r"
  have qb: "0 \<le> q" "q \<le> uint e"
    using sdiv_between [OF rp, of "sint e"] eb by (simp_all add: q_def se)
  define t where "t = uint (targetAzim s)"
  have tb: "0 \<le> t" "t < 65536" using uint_bounded [of "targetAzim s"] by (simp_all add: t_def)
  have "word_of_int q + ucast (targetAzim s) + 360
          = (word_of_int (q + sint (ucast (targetAzim s) :: i32) + 360) :: i32)"
    by simp
  then have "word_of_int q + ucast (targetAzim s) + 360 = (word_of_int (q + t + 360) :: i32)"
    by (simp only: sint_ucast16 t_def)
  moreover have "- 2147483648 \<le> q + t + 360" "q + t + 360 < 2147483648"
    using qb eb tb by linarith+
  ultimately have ss: "sint (word_of_int q + ucast (targetAzim s) + 360 :: i32) = q + t + 360"
    by (simp only: sint_of_int_32)
  define y where "y = (q + t + 360) smod 360"
  have "0 \<le> q + t + 360" using qb tb by simp
  then have "y = (q + t + 360) mod 360" unfolding y_def by (simp add: smod_mod_positive)
  then have yb: "0 \<le> y" "y < 360" by simp_all
  then have sy: "sint (word_of_int y :: i32) = y" by (intro sint_of_int_32) linarith+
  have "calcProjectedAzim cfg now s = Some (word_of_int y)"
    using act r0 rn
    by (simp add: calcProjectedAzim_def Let_def i32_div_def i32_mod360_def
          e_def [symmetric] r_def [symmetric] q_def [symmetric] ss y_def)
  with sy yb show ?thesis by simp
qed

section \<open>The staleness percentage\<close>

text \<open>
  \<open>calcGpsIntervalPct\<close> returns, is at most 100, and is the clamped exact quotient as long
  as the product \<open>(now - lastUpdateMs) * 10000\<close> fits 32 bits.
\<close>

lemma uint_ucast_8: "uint (w::u32) \<le> 100 \<Longrightarrow> uint (ucast w :: u8) = uint w"
  by (simp add: unsigned_ucast_eq take_bit_int_eq_self)

lemma constrain_pct: "uint (constrain_u32 q 0 100) = min 100 (uint q)"
  by (auto simp: constrain_u32_def word_less_def min_def)

lemma calcGpsIntervalPct_sound:
  "\<exists>p. calcGpsIntervalPct now s = Some p \<and> uint p \<le> 100
       \<and> (gpsAvgUpdateInterval s = 0 \<longrightarrow> p = 0)
       \<and> (gpsAvgUpdateInterval s \<noteq> 0
            \<and> uint (now - lastUpdateMs (gpsLast s)) * 10000 < 4294967296 \<longrightarrow>
              uint p = min 100 (uint (now - lastUpdateMs (gpsLast s)) * 10000
                                 div uint (gpsAvgUpdateInterval s)))"
proof (cases "gpsAvgUpdateInterval s = 0")
  case True
  then show ?thesis by (simp add: calcGpsIntervalPct_def)
next
  case False
  define e where "e = now - lastUpdateMs (gpsLast s)"
  define q where "q = e * 10000 div gpsAvgUpdateInterval s"
  have c: "uint (constrain_u32 q 0 100) \<le> 100" by (simp add: constrain_pct)
  have p: "calcGpsIntervalPct now s = Some (ucast (constrain_u32 q 0 100))"
    using False by (simp add: calcGpsIntervalPct_def u32_div_def q_def e_def)
  have u: "uint (ucast (constrain_u32 q 0 100) :: u8) = min 100 (uint q)"
    using uint_ucast_8 [OF c] by (simp add: constrain_pct)
  have "uint q = uint e * 10000 div uint (gpsAvgUpdateInterval s)"
    if "uint e * 10000 < 4294967296"
  proof -
    have "uint (e * 10000) = uint e * 10000 mod 4294967296"
      by (simp add: uint_word_ariths)
    also have "\<dots> = uint e * 10000" using that by (intro mod_pos_pos_trivial) simp_all
    finally show ?thesis by (simp add: q_def uint_div_distrib)
  qed
  with p u False show ?thesis unfolding e_def [symmetric] by auto
qed


section \<open>The projector when it is not active\<close>

text \<open>
  C8. When projection is disabled, or the average interval is 0, or the rate is 0, or the
  target is at most 3 m away, \<open>calcProjectedAzim\<close> returns the last target azimuth
  unchanged, whatever \<open>now\<close> is; so two calls at different times return the same value.
\<close>

theorem calcProjectedAzim_inactive:
  assumes "\<not> GetAatProject cfg \<or> gpsAvgUpdateInterval s = 0 \<or> azimMsPerDegree s = 0
           \<or> targetDistance s \<le> 3"
  shows "calcProjectedAzim cfg now s = Some (ucast (targetAzim s))
       \<and> sint (ucast (targetAzim s) :: i32) = uint (targetAzim s)
       \<and> calcProjectedAzim cfg now' s = calcProjectedAzim cfg now s"
  using assms by (auto simp: calcProjectedAzim_def sint_ucast16 not_less)

theorem calcProjectedAzim_inactive_witness:
  "targetDistance (servo_at 100000 81) \<le> 3
   \<and> calcProjectedAzim cfg_example 123456 (servo_at 100000 81) = Some 0"
proof -
  have h: "\<not> GetAatProject cfg_example \<or> gpsAvgUpdateInterval (servo_at 100000 81) = 0
           \<or> azimMsPerDegree (servo_at 100000 81) = 0 \<or> targetDistance (servo_at 100000 81) \<le> 3"
    by (simp add: servo_at_def AatModule_def)
  from calcProjectedAzim_inactive [OF h, of 123456 0] show ?thesis
    by (simp add: servo_at_def AatModule_def)
qed

section \<open>A fix that is too weak to set home\<close>

text \<open>
  C10. When \<open>processGps\<close> runs on a fresh fix while home is unset and the fix has fewer
  satellites than the configured minimum, it clears the fresh flag and sets the time of
  the last update to \<open>now\<close>, and changes nothing else: home stays unset, the target
  vector, the rate, the average interval and the servo positions are as before. The
  interval of the next fix is therefore measured from this rejected fix.
\<close>

theorem processGps_rejected_fix:
  assumes "updated (gpsLast s)" and "\<not> isHomeSet (home s)"
    and "satcnt (gpsLast s) < GetAatSatelliteHomeMin cfg"
  shows "processGps cfg g isHomeSet now s =
           Some (s\<lparr> gpsLast := (gpsLast s)\<lparr> updated := False, lastUpdateMs := now \<rparr> \<rparr>)
       \<and> (\<forall>s'. processGps cfg g isHomeSet now s = Some s' \<longrightarrow>
             \<not> updated (gpsLast s') \<and> lastUpdateMs (gpsLast s') = now
           \<and> home s' = home s \<and> \<not> isHomeSet (home s')
           \<and> targetDistance s' = targetDistance s \<and> targetAzim s' = targetAzim s
           \<and> targetElev s' = targetElev s \<and> azimMsPerDegree s' = azimMsPerDegree s
           \<and> gpsAvgUpdateInterval s' = gpsAvgUpdateInterval s \<and> servoPos s' = servoPos s
           \<and> lastServoUpdateMs s' = lastServoUpdateMs s
           \<and> (\<forall>p now'. fixInterval now' (SendGpsTelemetry p s') = now' - now))"
proof -
  from assms(3) have "\<not> GetAatSatelliteHomeMin cfg \<le> satcnt (gpsLast s)" by (simp add: not_le)
  with assms(1,2) have
    "processGps cfg g isHomeSet now s =
       Some (s\<lparr> gpsLast := (gpsLast s)\<lparr> updated := False, lastUpdateMs := now \<rparr> \<rparr>)"
    by (simp add: processGps_def Let_def)
  with assms(2) show ?thesis by (auto simp: fixInterval_def SendGpsTelemetry_def)
qed

theorem processGps_rejected_fix_witness:
  "updated (gpsLast (fresh_fix 5)) \<and> \<not> isHomeSet_nonzero (home (fresh_fix 5))
   \<and> satcnt (gpsLast (fresh_fix 5)) < GetAatSatelliteHomeMin cfg_example
   \<and> map_option (\<lambda>s'. lastUpdateMs (gpsLast s'))
       (processGps cfg_example g_example isHomeSet_nonzero 700 (fresh_fix 5)) = Some 700"
proof -
  have h: "updated (gpsLast (fresh_fix 5))" "\<not> isHomeSet_nonzero (home (fresh_fix 5))"
    "satcnt (gpsLast (fresh_fix 5)) < GetAatSatelliteHomeMin cfg_example"
    by (simp_all add: fresh_fix_def SendGpsTelemetry_def Init_def AatModule_def
          isHomeSet_nonzero_def cfg_example_def gps_fix_def)
  from processGps_rejected_fix [where s = "fresh_fix 5" and isHomeSet = isHomeSet_nonzero
      and cfg = cfg_example and g = g_example and now = 700, OF h] h
  show ?thesis by simp
qed


section \<open>Latching home\<close>

text \<open>
  A fix at the position the constructor gives to home leaves home as it was: whatever
  \<open>isHomeSet\<close> is, if it does not hold of the constructor's home, it does not hold after
  that fix either.
\<close>

lemma null_fix_stays_unset:
  assumes "\<not> isHomeSet (home AatModule)"
  shows "\<exists>s'. run cfg g isHomeSet [Frame null_fix, Tick now] (Init cfg AatModule) = Some s'
           \<and> home s' = home AatModule \<and> \<not> isHomeSet (home s')"
proof -
  let ?s = "SendGpsTelemetry null_fix (Init cfg AatModule)"
  have u: "updated (gpsLast ?s)" and h0: "home ?s = home AatModule"
    and p: "lat (gpsLast ?s) = 0" "lon (gpsLast ?s) = 0" "altitude (gpsLast ?s) = 0"
    by (simp_all add: SendGpsTelemetry_def Init_def null_fix_def gps_fix_def)
  have z: "home AatModule = \<lparr> home_lat = 0, home_lon = 0, home_alt = 0 \<rparr>"
    by (simp add: AatModule_def)
  have n: "\<not> isHomeSet (home ?s)" using assms h0 by simp
  have "\<exists>s'. processGps cfg g isHomeSet now ?s = Some s' \<and> home s' = home AatModule"
  proof (cases "GetAatSatelliteHomeMin cfg \<le> satcnt (gpsLast ?s)")
    case True
    let ?t = "setHome (?s\<lparr> gpsLast := (gpsLast ?s)\<lparr> updated := False, lastUpdateMs := now \<rparr> \<rparr>)"
    have ht: "home ?t = home AatModule" by (simp add: setHome_def p z)
    from True u n have "processGps cfg g isHomeSet now ?s =
        processGps_track cfg g True (fixInterval now ?s) ?t"
      by (simp add: processGps_def Let_def)
    with track_home_set [of cfg g "fixInterval now ?s" ?t] ht show ?thesis by auto
  next
    case False
    with u n have "processGps cfg g isHomeSet now ?s =
        Some (?s\<lparr> gpsLast := (gpsLast ?s)\<lparr> updated := False, lastUpdateMs := now \<rparr> \<rparr>)"
      by (simp add: processGps_def Let_def)
    with h0 show ?thesis by simp
  qed
  then obtain s' where s': "processGps cfg g isHomeSet now ?s = Some s'"
    and h: "home s' = home AatModule" by blast
  with assms have "Loop cfg g isHomeSet now ?s = Some s'" by (simp add: Loop_def)
  with h assms show ?thesis by simp
qed

text \<open>
  C4 as stated fails: it has every qualifying fix set home for good. With home counted as
  set once its latitude or longitude is not zero, a fix from 8 satellites at latitude 0
  and longitude 0 is processed and leaves home unset, and the next qualifying fix moves
  home to its own position.
\<close>

theorem processGps_home_latch_counterexample:
  "GetAatSatelliteHomeMin cfg_example \<le> p_satcnt null_fix
   \<and> \<not> isHomeSet_nonzero (home (Init cfg_example AatModule))
   \<and> map_option home
        (run cfg_example g_example isHomeSet_nonzero [Frame null_fix, Tick 700]
           (Init cfg_example AatModule))
       = Some \<lparr> home_lat = 0, home_lon = 0, home_alt = 0 \<rparr>
   \<and> map_option home
        (run cfg_example g_example isHomeSet_nonzero
           [Frame null_fix, Tick 700, Frame (gps_fix 10000 10000 8), Tick 1700]
           (Init cfg_example AatModule))
       = Some \<lparr> home_lat = 10000, home_lon = 10000, home_alt = 100 \<rparr>"
  by code_simp


text \<open>
  C4, amended. While home is unset, a processed fix assigns its position to home exactly
  when its satellite count reaches the configured minimum; that fix updates neither the
  average interval nor the rate. If \<open>isHomeSet\<close> holds of the position assigned, no later
  frame or tick changes home. A fix below the minimum produces no tracking output:
  \<open>Loop\<close> leaves home, the target vector and the servos alone. From any state in which
  \<open>isHomeSet\<close> holds, no frame or tick changes home.
\<close>

theorem processGps_home_latch:
  "(updated (gpsLast s) \<and> \<not> isHomeSet (home s)
      \<and> GetAatSatelliteHomeMin cfg \<le> satcnt (gpsLast s) \<longrightarrow>
      (\<exists>s'. processGps cfg g isHomeSet now s = Some s'
         \<and> home s' = \<lparr> home_lat = lat (gpsLast s), home_lon = lon (gpsLast s),
                        home_alt = altitude (gpsLast s) \<rparr>
         \<and> gpsAvgUpdateInterval s' = gpsAvgUpdateInterval s
         \<and> azimMsPerDegree s' = azimMsPerDegree s
         \<and> (isHomeSet (home s') \<longrightarrow>
               (\<forall>es s''. run cfg g isHomeSet es s' = Some s'' \<longrightarrow> home s'' = home s'))))
   \<and> (updated (gpsLast s) \<and> \<not> isHomeSet (home s)
      \<and> satcnt (gpsLast s) < GetAatSatelliteHomeMin cfg \<longrightarrow>
      (\<exists>s'. processGps cfg g isHomeSet now s = Some s' \<and> Loop cfg g isHomeSet now s = Some s'
         \<and> home s' = home s \<and> \<not> isHomeSet (home s')
         \<and> targetDistance s' = targetDistance s \<and> targetAzim s' = targetAzim s
         \<and> targetElev s' = targetElev s \<and> servoPos s' = servoPos s
         \<and> lastServoUpdateMs s' = lastServoUpdateMs s))
   \<and> (isHomeSet (home s) \<and> run cfg g isHomeSet es s = Some s'' \<longrightarrow> home s'' = home s)"
proof (intro conjI impI)
  assume a: "updated (gpsLast s) \<and> \<not> isHomeSet (home s)
      \<and> GetAatSatelliteHomeMin cfg \<le> satcnt (gpsLast s)"
  let ?s = "setHome (s\<lparr> gpsLast := (gpsLast s)\<lparr> updated := False, lastUpdateMs := now \<rparr> \<rparr>)"
  from a have "processGps cfg g isHomeSet now s = processGps_track cfg g True (fixInterval now s) ?s"
    by (simp add: processGps_def Let_def)
  with track_home_set [of cfg g "fixInterval now s" ?s]
  obtain s' where p: "processGps cfg g isHomeSet now s = Some s'"
    and h: "home s' = \<lparr> home_lat = lat (gpsLast s), home_lon = lon (gpsLast s),
                        home_alt = altitude (gpsLast s) \<rparr>"
    and k: "gpsAvgUpdateInterval s' = gpsAvgUpdateInterval s" "azimMsPerDegree s' = azimMsPerDegree s"
    by (auto simp: setHome_def)
  have "\<forall>es s''. run cfg g isHomeSet es s' = Some s'' \<longrightarrow> home s'' = home s'"
    if "isHomeSet (home s')"
    using run_home [where hs = isHomeSet and s = s' and cfg = cfg and g = g, OF that] by blast
  with p h k
  show "\<exists>s'. processGps cfg g isHomeSet now s = Some s'
         \<and> home s' = \<lparr> home_lat = lat (gpsLast s), home_lon = lon (gpsLast s),
                        home_alt = altitude (gpsLast s) \<rparr>
         \<and> gpsAvgUpdateInterval s' = gpsAvgUpdateInterval s
         \<and> azimMsPerDegree s' = azimMsPerDegree s
         \<and> (isHomeSet (home s') \<longrightarrow>
               (\<forall>es s''. run cfg g isHomeSet es s' = Some s'' \<longrightarrow> home s'' = home s'))"
    by blast
next
  assume a: "updated (gpsLast s) \<and> \<not> isHomeSet (home s)
      \<and> satcnt (gpsLast s) < GetAatSatelliteHomeMin cfg"
  then have "\<not> GetAatSatelliteHomeMin cfg \<le> satcnt (gpsLast s)" by (simp add: not_le)
  with a have p: "processGps cfg g isHomeSet now s =
       Some (s\<lparr> gpsLast := (gpsLast s)\<lparr> updated := False, lastUpdateMs := now \<rparr> \<rparr>)"
    by (simp add: processGps_def Let_def)
  with a show "\<exists>s'. processGps cfg g isHomeSet now s = Some s' \<and> Loop cfg g isHomeSet now s = Some s'
         \<and> home s' = home s \<and> \<not> isHomeSet (home s')
         \<and> targetDistance s' = targetDistance s \<and> targetAzim s' = targetAzim s
         \<and> targetElev s' = targetElev s \<and> servoPos s' = servoPos s
         \<and> lastServoUpdateMs s' = lastServoUpdateMs s"
    by (simp add: Loop_def)
next
  assume "isHomeSet (home s) \<and> run cfg g isHomeSet es s = Some s''"
  then show "home s'' = home s" using run_home by blast
qed

theorem processGps_home_latch_witness:
  "updated (gpsLast (fresh_fix 7)) \<and> \<not> isHomeSet_nonzero (home (fresh_fix 7))
   \<and> GetAatSatelliteHomeMin cfg_example \<le> satcnt (gpsLast (fresh_fix 7))
   \<and> (\<exists>s' s''. processGps cfg_example g_example isHomeSet_nonzero 700 (fresh_fix 7) = Some s'
        \<and> home s' = \<lparr> home_lat = 10000, home_lon = 10000, home_alt = 100 \<rparr>
        \<and> gpsAvgUpdateInterval s' = 0 \<and> azimMsPerDegree s' = 0
        \<and> isHomeSet_nonzero (home s')
        \<and> run cfg_example g_example isHomeSet_nonzero
              [Tick 6000, Frame (gps_fix 10450 10080 9), Tick 7000] s' = Some s''
        \<and> home s'' = \<lparr> home_lat = 10000, home_lon = 10000, home_alt = 100 \<rparr>)
   \<and> updated (gpsLast (fresh_fix 5)) \<and> \<not> isHomeSet_nonzero (home (fresh_fix 5))
   \<and> satcnt (gpsLast (fresh_fix 5)) < GetAatSatelliteHomeMin cfg_example
   \<and> (\<exists>s'. Loop cfg_example g_example isHomeSet_nonzero 700 (fresh_fix 5) = Some s'
        \<and> home s' = \<lparr> home_lat = 0, home_lon = 0, home_alt = 0 \<rparr> \<and> targetDistance s' = 0)
   \<and> isHomeSet_nonzero (home (setHome (fresh_fix 7)))
   \<and> (\<exists>s'. run cfg_example g_example isHomeSet_nonzero
               [Tick 6000, Frame (gps_fix 10450 10080 9), Tick 7000] (setHome (fresh_fix 7)) = Some s'
        \<and> home s' = \<lparr> home_lat = 10000, home_lon = 10000, home_alt = 100 \<rparr>)"
proof -
  let ?es = "[Tick 6000, Frame (gps_fix 10450 10080 9), Tick 7000]"
  have h7: "updated (gpsLast (fresh_fix 7)) \<and> \<not> isHomeSet_nonzero (home (fresh_fix 7))
      \<and> GetAatSatelliteHomeMin cfg_example \<le> satcnt (gpsLast (fresh_fix 7))"
    by (simp add: fresh_fix_def SendGpsTelemetry_def Init_def AatModule_def
          isHomeSet_nonzero_def cfg_example_def gps_fix_def)
  have v7: "lat (gpsLast (fresh_fix 7)) = 10000" "lon (gpsLast (fresh_fix 7)) = 10000"
     "altitude (gpsLast (fresh_fix 7)) = 100" "gpsAvgUpdateInterval (fresh_fix 7) = 0"
     "azimMsPerDegree (fresh_fix 7) = 0"
    by (simp_all add: fresh_fix_def SendGpsTelemetry_def Init_def AatModule_def gps_fix_def)
  have h5: "updated (gpsLast (fresh_fix 5)) \<and> \<not> isHomeSet_nonzero (home (fresh_fix 5))
      \<and> satcnt (gpsLast (fresh_fix 5)) < GetAatSatelliteHomeMin cfg_example"
    by (simp add: fresh_fix_def SendGpsTelemetry_def Init_def AatModule_def
          isHomeSet_nonzero_def cfg_example_def gps_fix_def)
  have v5: "home (fresh_fix 5) = \<lparr> home_lat = 0, home_lon = 0, home_alt = 0 \<rparr>"
     "targetDistance (fresh_fix 5) = 0"
    by (simp_all add: fresh_fix_def SendGpsTelemetry_def Init_def AatModule_def)
  have hm: "home (setHome (fresh_fix 7)) = \<lparr> home_lat = 10000, home_lon = 10000, home_alt = 100 \<rparr>"
    by (simp add: setHome_def v7)
  have hs: "isHomeSet_nonzero (home (setHome (fresh_fix 7)))"
    by (simp add: hm isHomeSet_nonzero_def)
  have "run cfg_example g_example isHomeSet_nonzero ?es (setHome (fresh_fix 7)) \<noteq> None"
    by code_simp
  then obtain t where t: "run cfg_example g_example isHomeSet_nonzero ?es (setHome (fresh_fix 7)) = Some t"
    by auto
  from processGps_home_latch [where s = "fresh_fix 7" and isHomeSet = isHomeSet_nonzero
      and cfg = cfg_example and g = g_example and now = 700, THEN conjunct1, rule_format, OF h7]
  obtain s' where p: "processGps cfg_example g_example isHomeSet_nonzero 700 (fresh_fix 7) = Some s'"
    and h: "home s' = \<lparr> home_lat = 10000, home_lon = 10000, home_alt = 100 \<rparr>"
    and k: "gpsAvgUpdateInterval s' = 0" "azimMsPerDegree s' = 0"
    and r: "isHomeSet_nonzero (home s') \<longrightarrow>
              (\<forall>es s''. run cfg_example g_example isHomeSet_nonzero es s' = Some s'' \<longrightarrow>
                 home s'' = home s')"
    unfolding v7 by blast
  have hs': "isHomeSet_nonzero (home s')" by (simp add: h isHomeSet_nonzero_def)
  have "Option.bind (processGps cfg_example g_example isHomeSet_nonzero 700 (fresh_fix 7))
          (run cfg_example g_example isHomeSet_nonzero ?es) \<noteq> None"
    by code_simp
  with p obtain s'' where s'': "run cfg_example g_example isHomeSet_nonzero ?es s' = Some s''"
    by auto
  from r hs' s'' have "home s'' = home s'" by blast
  with h have h'': "home s'' = \<lparr> home_lat = 10000, home_lon = 10000, home_alt = 100 \<rparr>"
    by simp
  from p h k hs' s'' h''
  have c1: "\<exists>s' s''. processGps cfg_example g_example isHomeSet_nonzero 700 (fresh_fix 7) = Some s'
        \<and> home s' = \<lparr> home_lat = 10000, home_lon = 10000, home_alt = 100 \<rparr>
        \<and> gpsAvgUpdateInterval s' = 0 \<and> azimMsPerDegree s' = 0
        \<and> isHomeSet_nonzero (home s')
        \<and> run cfg_example g_example isHomeSet_nonzero ?es s' = Some s''
        \<and> home s'' = \<lparr> home_lat = 10000, home_lon = 10000, home_alt = 100 \<rparr>"
    by blast
  from processGps_home_latch [where s = "fresh_fix 5" and isHomeSet = isHomeSet_nonzero
      and cfg = cfg_example and g = g_example and now = 700] h5 v5
  have c2: "\<exists>s'. Loop cfg_example g_example isHomeSet_nonzero 700 (fresh_fix 5) = Some s'
        \<and> home s' = \<lparr> home_lat = 0, home_lon = 0, home_alt = 0 \<rparr> \<and> targetDistance s' = 0"
    by auto
  from processGps_home_latch [where s = "setHome (fresh_fix 7)" and isHomeSet = isHomeSet_nonzero
      and cfg = cfg_example and g = g_example and s'' = t and es = ?es] hs t hm
  have c3: "home t = \<lparr> home_lat = 10000, home_lon = 10000, home_alt = 100 \<rparr>" by simp
  from c1 c2 c3 t hs h7 h5 show ?thesis by simp
qed


section \<open>The average update interval\<close>



section \<open>The angular rate\<close>

text \<open>
  C7. On a fix processed while home is set, the azimuth delta against the previous target
  azimuth lies in [-180, 180] and is congruent to the difference of the two azimuths
  modulo 360. \<open>processGps\<close> returns (no division by zero happens); the stored rate is 0
  when the delta is 0, and the interval, read as \<open>int32_t\<close>, divided by the delta
  otherwise.
\<close>

theorem processGps_rate:
  assumes "updated (gpsLast s)" and "isHomeSet (home s)"
  shows "let interval = now - lastUpdateMs (gpsLast s);
             azimuth = snd (calcDistAndAzimuth g (home_lat (home s)) (home_lon (home s))
                              (lat (gpsLast s)) (lon (gpsLast s)));
             d = sint (azimDelta azimuth (targetAzim s))
         in - 180 \<le> d \<and> d \<le> 180
          \<and> (uint (targetAzim s) < 360 \<longrightarrow> (d - (uint azimuth - uint (targetAzim s))) mod 360 = 0)
          \<and> (\<exists>s'. processGps cfg g isHomeSet now s = Some s'
                \<and> azimMsPerDegree s' = (if d = 0 then 0 else word_of_int (sint interval sdiv d))
                \<and> (d \<noteq> 0 \<and> 0 \<le> sint interval \<longrightarrow>
                      sint (azimMsPerDegree s') = uint interval sdiv d))"
proof -
  define interval where "interval = now - lastUpdateMs (gpsLast s)"
  define azimuth where "azimuth = snd (calcDistAndAzimuth g (home_lat (home s)) (home_lon (home s))
                              (lat (gpsLast s)) (lon (gpsLast s)))"
  define d where "d = azimDelta azimuth (targetAzim s)"
  let ?s = "s\<lparr> gpsLast := (gpsLast s)\<lparr> updated := False, lastUpdateMs := now \<rparr> \<rparr>"
  have range: "- 180 \<le> sint d \<and> sint d \<le> 180"
    using azimDelta_range [of azimuth "targetAzim s"] by (simp add: d_def)
  have cong: "(sint d - (uint azimuth - uint (targetAzim s))) mod 360 = 0"
    if "uint (targetAzim s) < 360"
    unfolding d_def
    by (rule azimDelta_cong [OF _ that]) (simp add: azimuth_def calcDistAndAzimuth_azim)
  from assms have p: "processGps cfg g isHomeSet now s = processGps_track cfg g False interval ?s"
    by (simp add: processGps_def fixInterval_def interval_def Let_def)
  from track_rate [of cfg g interval ?s] obtain s' where
    s': "processGps_track cfg g False interval ?s = Some s'"
    and r: "azimMsPerDegree s' = (if d = 0 then 0 else word_of_int (sint interval sdiv sint d))"
    by (auto simp: Let_def d_def azimuth_def)
  have ex: "sint (azimMsPerDegree s') = uint interval sdiv sint d"
    if "sint d \<noteq> 0" "0 \<le> sint interval"
  proof -
    from that(1) have "d \<noteq> 0" by (simp add: sint_zero_iff)
    from i32_div_exact [OF this that(2)] r \<open>d \<noteq> 0\<close> show ?thesis
      by (simp add: i32_div_def)
  qed
  from range cong p s' r ex show ?thesis
    unfolding Let_def interval_def [symmetric] azimuth_def [symmetric] d_def [symmetric]
    by (simp add: sint_zero_iff)
qed

theorem processGps_rate_witness:
  "updated (gpsLast tracking_fix) \<and> isHomeSet_nonzero (home tracking_fix)
   \<and> uint (targetAzim tracking_fix) < 360
   \<and> 0 \<le> sint (2000 - lastUpdateMs (gpsLast tracking_fix))
   \<and> sint (azimDelta (snd (calcDistAndAzimuth g_example (home_lat (home tracking_fix))
              (home_lon (home tracking_fix)) (lat (gpsLast tracking_fix)) (lon (gpsLast tracking_fix))))
            (targetAzim tracking_fix)) = 10
   \<and> (\<exists>s'. processGps cfg_example g_example isHomeSet_nonzero 2000 tracking_fix = Some s'
          \<and> sint (azimMsPerDegree s') = 200)"
proof -
  have h: "updated (gpsLast tracking_fix)" "isHomeSet_nonzero (home tracking_fix)"
    by (simp_all add: tracking_fix_def fresh_fix_def SendGpsTelemetry_def setHome_def Init_def
          AatModule_def isHomeSet_nonzero_def gps_fix_def)
  have t: "uint (targetAzim tracking_fix) < 360"
    by (simp add: tracking_fix_def fresh_fix_def SendGpsTelemetry_def setHome_def Init_def
          AatModule_def)
  have d: "sint (azimDelta (snd (calcDistAndAzimuth g_example (home_lat (home tracking_fix))
              (home_lon (home tracking_fix)) (lat (gpsLast tracking_fix)) (lon (gpsLast tracking_fix))))
            (targetAzim tracking_fix)) = 10"
    by code_simp
  have i: "sint (2000 - lastUpdateMs (gpsLast tracking_fix)) = 2000"
     "uint (2000 - lastUpdateMs (gpsLast tracking_fix)) = 2000"
    by code_simp+
  from processGps_rate [where s = tracking_fix and isHomeSet = isHomeSet_nonzero
      and cfg = cfg_example and g = g_example and now = 2000, OF h]
  have "\<exists>s'. processGps cfg_example g_example isHomeSet_nonzero 2000 tracking_fix = Some s'
          \<and> sint (azimMsPerDegree s') = 200"
    unfolding Let_def d i by auto
  with h t d i show ?thesis by simp
qed

section \<open>Snapping and smoothing the servos\<close>

text \<open>
  C5. In \<open>servoUpdate\<close>, when at least 20 ms have passed and no axis has equal end points,
  each axis moves as the policy says: with \<open>range = 100 * (high - low)\<close> and
  \<open>delta = new - cur\<close>, the position becomes \<open>new\<close> if \<open>|delta| * 100 / range > 80\<close>
  and \<open>cur + delta / (smoothingFactor + 1)\<close> otherwise (\<open>servoStep\<close>; the differences
  are such that \<open>|delta| * 100\<close> fits 32 bits). With end points of 1000 and 2000 and a
  smoothing factor of 3, a change of 90 percent of the range (from 100000 to 190000)
  snaps, and a change of 40 percent (from 100000 to 140000) moves by a quarter of it.
\<close>

theorem servoUpdate_snap_or_smooth:
  "(20 \<le> now - lastServoUpdateMs s
      \<and> (\<forall>idx. GetAatServoHigh cfg idx \<noteq> GetAatServoLow cfg idx) \<longrightarrow>
      (\<exists>new. newServoPos cfg now (s\<lparr> lastServoUpdateMs := now \<rparr>) = Some new
         \<and> ((\<forall>idx. \<bar>sint (new idx) - sint (servoPos s idx)\<bar> * 100 < 2147483648) \<longrightarrow>
              (\<exists>s'. servoUpdate cfg now s = Some s'
                 \<and> (\<forall>idx. sint (servoPos s' idx) =
                       servoStep cfg idx (sint (servoPos s idx)) (sint (new idx)))))))
   \<and> servoStep cfg_example IDX_ELEV 100000 190000 = 190000
   \<and> servoStep cfg_example IDX_ELEV 100000 140000 = 100000 + (140000 - 100000) div 4
   \<and> map_option (\<lambda>new. sint (new IDX_ELEV)) (newServoPos cfg_example 6000 (servo_at 100000 81))
        = Some 190000
   \<and> map_option (\<lambda>s'. sint (servoPos s' IDX_ELEV)) (servoUpdate cfg_example 6000 (servo_at 100000 81))
        = Some 190000
   \<and> map_option (\<lambda>new. sint (new IDX_ELEV)) (newServoPos cfg_example 6000 (servo_at 100000 36))
        = Some 140000
   \<and> map_option (\<lambda>s'. sint (servoPos s' IDX_ELEV)) (servoUpdate cfg_example 6000 (servo_at 100000 36))
        = Some 110000"
proof (intro conjI impI)
  assume a: "20 \<le> now - lastServoUpdateMs s
      \<and> (\<forall>idx. GetAatServoHigh cfg idx \<noteq> GetAatServoLow cfg idx)"
  obtain new where n: "newServoPos cfg now (s\<lparr> lastServoUpdateMs := now \<rparr>) = Some new"
    using newServoPos_total by blast
  have "\<exists>s'. servoUpdate cfg now s = Some s'
           \<and> (\<forall>idx. sint (servoPos s' idx) = servoStep cfg idx (sint (servoPos s idx)) (sint (new idx)))"
    if "\<forall>idx. \<bar>sint (new idx) - sint (servoPos s idx)\<bar> * 100 < 2147483648"
    using a n that by (intro servoUpdate_axes) simp_all
  with n show "\<exists>new. newServoPos cfg now (s\<lparr> lastServoUpdateMs := now \<rparr>) = Some new
         \<and> ((\<forall>idx. \<bar>sint (new idx) - sint (servoPos s idx)\<bar> * 100 < 2147483648) \<longrightarrow>
              (\<exists>s'. servoUpdate cfg now s = Some s'
                 \<and> (\<forall>idx. sint (servoPos s' idx) =
                       servoStep cfg idx (sint (servoPos s idx)) (sint (new idx)))))"
    by blast
next
  show "servoStep cfg_example IDX_ELEV 100000 190000 = 190000" by code_simp
next
  show "servoStep cfg_example IDX_ELEV 100000 140000 = 100000 + (140000 - 100000) div 4" by code_simp
next
  show "map_option (\<lambda>new. sint (new IDX_ELEV)) (newServoPos cfg_example 6000 (servo_at 100000 81))
        = Some 190000" by code_simp
next
  show "map_option (\<lambda>s'. sint (servoPos s' IDX_ELEV)) (servoUpdate cfg_example 6000 (servo_at 100000 81))
        = Some 190000" by code_simp
next
  show "map_option (\<lambda>new. sint (new IDX_ELEV)) (newServoPos cfg_example 6000 (servo_at 100000 36))
        = Some 140000" by code_simp
next
  show "map_option (\<lambda>s'. sint (servoPos s' IDX_ELEV)) (servoUpdate cfg_example 6000 (servo_at 100000 36))
        = Some 110000" by code_simp
qed

theorem servoUpdate_snap_or_smooth_witness:
  "20 \<le> 6000 - lastServoUpdateMs (servo_at 100000 81)
   \<and> (\<forall>idx. GetAatServoHigh cfg_example idx \<noteq> GetAatServoLow cfg_example idx)
   \<and> (\<exists>new s'. newServoPos cfg_example 6000 ((servo_at 100000 81)\<lparr> lastServoUpdateMs := 6000 \<rparr>) = Some new
         \<and> (\<forall>idx. \<bar>sint (new idx) - sint (servoPos (servo_at 100000 81) idx)\<bar> * 100 < 2147483648)
         \<and> servoUpdate cfg_example 6000 (servo_at 100000 81) = Some s'
         \<and> sint (servoPos s' IDX_ELEV) = 190000)"
proof -
  let ?s = "servo_at 100000 81"
  have h: "20 \<le> 6000 - lastServoUpdateMs ?s
      \<and> (\<forall>idx. GetAatServoHigh cfg_example idx \<noteq> GetAatServoLow cfg_example idx)"
    by (simp add: servo_at_def AatModule_def cfg_example_def)
  from servoUpdate_snap_or_smooth [of 6000 ?s cfg_example] h
  obtain new where n: "newServoPos cfg_example 6000 (?s\<lparr> lastServoUpdateMs := 6000 \<rparr>) = Some new"
    and imp: "(\<forall>idx. \<bar>sint (new idx) - sint (servoPos ?s idx)\<bar> * 100 < 2147483648) \<longrightarrow>
              (\<exists>s'. servoUpdate cfg_example 6000 ?s = Some s'
                 \<and> (\<forall>idx. sint (servoPos s' idx) =
                       servoStep cfg_example idx (sint (servoPos ?s idx)) (sint (new idx))))"
    by blast
  have "map_option (\<lambda>new. (sint (new IDX_AZIM), sint (new IDX_ELEV)))
          (newServoPos cfg_example 6000 (?s\<lparr> lastServoUpdateMs := 6000 \<rparr>)) = Some (150000, 190000)"
    by code_simp
  with n have nv: "sint (new IDX_AZIM) = 150000" "sint (new IDX_ELEV) = 190000" by simp_all
  have cv: "sint (servoPos ?s idx) = 100000" for idx
    by (simp add: servo_at_def AatModule_def)
  have b: "\<forall>idx. \<bar>sint (new idx) - sint (servoPos ?s idx)\<bar> * 100 < 2147483648"
  proof
    fix idx show "\<bar>sint (new idx) - sint (servoPos ?s idx)\<bar> * 100 < 2147483648"
      by (cases idx) (simp_all add: nv cv)
  qed
  with imp obtain s' where u: "servoUpdate cfg_example 6000 ?s = Some s'"
    and v: "sint (servoPos s' IDX_ELEV) =
              servoStep cfg_example IDX_ELEV (sint (servoPos ?s IDX_ELEV)) (sint (new IDX_ELEV))"
    by blast
  have "servoStep cfg_example IDX_ELEV 100000 190000 = 190000" by code_simp
  with v have "sint (servoPos s' IDX_ELEV) = 190000" by (simp add: nv cv)
  with h n b u show ?thesis by blast
qed


section \<open>The projected azimuth after the link is lost\<close>

text \<open>
  C1. The claim is that an active projection returns an azimuth in [0, 360), also for a
  negative rate. In the state reached by \<open>lost_link_run\<close> the projection is active (it is
  enabled, the average interval is 752500, the rate is -10 ms per degree, the target is
  5 m away), and 6 s after the last fix \<open>calcProjectedAzim\<close> returns -240: the quotient
  \<open>6000 / -10\<close> is below -360 and \<open>%\<close> keeps the sign of the dividend.
\<close>

theorem calcProjectedAzim_negative:
  "(case lost_link_state of None \<Rightarrow> False
    | Some s \<Rightarrow>
        GetAatProject cfg_direct \<and> gpsAvgUpdateInterval s = 752500
      \<and> sint (azimMsPerDegree s) = - 10 \<and> targetDistance s = 5 \<and> targetAzim s = 0
      \<and> lastUpdateMs (gpsLast s) = 41100
      \<and> map_option sint (calcProjectedAzim cfg_direct 47100 s) = Some (- 240))"
  by code_simp

section \<open>The azimuth servo after the link is lost\<close>

text \<open>
  C2. The claim is that a servo position always lies between the low and the high end
  point, times 100. After \<open>lost_link_run\<close> the azimuth servo is at 150000, the midpoint;
  the tick at 47100 ms maps the projected azimuth of -240 degrees to 83400, below the low
  end point of 100000, and the servo goes there.
\<close>

theorem servoPos_below_low:
  "(case lost_link_state of None \<Rightarrow> False
    | Some s \<Rightarrow>
        sint (servoPos s IDX_AZIM) = 150000
      \<and> map_option (\<lambda>s'. sint (servoPos s' IDX_AZIM))
           (Loop cfg_direct g_example isHomeSet_nonzero 47100 s) = Some 83400)
   \<and> uint (GetAatServoLow cfg_direct IDX_AZIM) * 100 = 100000
   \<and> uint (GetAatServoHigh cfg_direct IDX_AZIM) * 100 = 200000
   \<and> sint (servoMid cfg_direct IDX_AZIM) = 150000"
  by code_simp


section \<open>The staleness percentage after a long silence\<close>

text \<open>
  C9. The claim is that \<open>calcGpsIntervalPct\<close> returns the exact quotient
  \<open>(now - lastUpdateMs) * 10000 / avgInterval\<close>, clamped to [0, 100]. In the state reached
  by \<open>lost_link_run\<close>, 429497 ms after the last fix, the exact quotient is 5707, which
  clamps to 100; the 32-bit product wraps to 2704 and the function returns 0.
\<close>

theorem calcGpsIntervalPct_wraps:
  "(case lost_link_state of None \<Rightarrow> False
    | Some s \<Rightarrow>
        gpsAvgUpdateInterval s = 752500 \<and> lastUpdateMs (gpsLast s) = 41100
      \<and> calcGpsIntervalPct 470597 s = Some 0)
   \<and> (470597 - 41100) * 10000 div (752500 :: int) = 5707"
  by code_simp

end
